theory Spec2Isabelle
  imports Main
begin

section \<open>Python values used by flight\_search\_ctrip.py\<close>

text \<open>
  A Python \<open>str\<close> is a sequence of Unicode code points. Text that comes from the page
  (element texts, the body text) is modelled as a list of code points \<open>ustr\<close>; the
  strings the script builds from ASCII literals only (the date, the URLs, file names)
  are modelled as \<open>string\<close>.
\<close>

type_synonym ustr = "nat list"

definition asc :: "string \<Rightarrow> ustr" where
  "asc s = map of_char s"

text \<open>
  The exceptions the script can meet. \<open>TimeoutError\<close> is Playwright's timeout (a subclass of
  Playwright's \<open>Error\<close>), \<open>BaseException\<close> stands for the exceptions that are not
  subclasses of \<open>Exception\<close> (KeyboardInterrupt, asyncio's CancelledError): a bare
  \<open>except:\<close> catches them, \<open>except Exception\<close> does not.
\<close>

datatype exn = TimeoutError | Error | OverflowError | IndexError | OtherException | BaseException

fun is_Exception :: "exn \<Rightarrow> bool" where
  "is_Exception BaseException = False"
| "is_Exception _ = True"

fun is_PlaywrightTimeoutError :: "exn \<Rightarrow> bool" where
  "is_PlaywrightTimeoutError TimeoutError = True"
| "is_PlaywrightTimeoutError _ = False"

text \<open>
  What the script takes from the Python runtime and not from its own source: the Unicode
  character classes behind \<open>\d\<close> (decimal digits), \<open>\s\<close>, \<open>str.strip\<close> and
  \<open>str.split\<close> (whitespace) and \<open>\b\<close> (alphanumeric characters and the underscore);
  the order in which \<open>list(set(xs))\<close> lists the elements of a set of strings (it depends on
  the hash seed of the process); and the text that \<open>strftime\<close> gives for \<open>%Y\<close> when the
  year is below 1000 (the documentation shows four digits, the C library of Linux writes the
  year without leading zeros). They are parameters of the model.
\<close>

record pyrt =
  isdecimal :: "nat \<Rightarrow> bool"
  isspace :: "nat \<Rightarrow> bool"
  isalnum :: "nat \<Rightarrow> bool"
  set_list :: "ustr list \<Rightarrow> ustr list"
  early_year :: "nat \<Rightarrow> string"

definition isword :: "pyrt \<Rightarrow> nat \<Rightarrow> bool" where
  "isword P c = (isalnum P c \<or> c = 95)"

text \<open>\<open>list(set(xs))\<close> has every element of \<open>xs\<close> exactly once, in some order.\<close>

definition set_list_ok :: "pyrt \<Rightarrow> bool" where
  "set_list_ok P = (\<forall>xs. distinct (set_list P xs) \<and> set (set_list P xs) = set xs)"

subsection \<open>Strings\<close>

text \<open>\<open>s.replace(c, new)\<close> for a one-character \<open>c\<close>.\<close>

definition py_replace :: "'a \<Rightarrow> 'a list \<Rightarrow> 'a list \<Rightarrow> 'a list" where
  "py_replace c new s = concat (map (\<lambda>x. if x = c then new else [x]) s)"

text \<open>\<open>s.strip()\<close>: whitespace removed at both ends.\<close>

definition py_strip :: "pyrt \<Rightarrow> ustr \<Rightarrow> ustr" where
  "py_strip P s = rev (dropWhile (isspace P) (rev (dropWhile (isspace P) s)))"

text \<open>\<open>s.split()\<close>: the maximal runs of non-whitespace characters, \<open>cur\<close> being the run
  read so far (reversed).\<close>

fun split_from :: "pyrt \<Rightarrow> ustr \<Rightarrow> ustr \<Rightarrow> ustr list" where
  "split_from P cur [] = (if cur = [] then [] else [rev cur])"
| "split_from P cur (x # xs) =
     (if isspace P x then (if cur = [] then split_from P [] xs else rev cur # split_from P [] xs)
      else split_from P (x # cur) xs)"

definition py_split :: "pyrt \<Rightarrow> ustr \<Rightarrow> ustr list" where
  "py_split P s = split_from P [] s"

text \<open>\<open>xs[i]\<close> for \<open>i \<ge> 0\<close>: an index out of range raises IndexError.\<close>

definition py_index :: "'a list \<Rightarrow> nat \<Rightarrow> exn + 'a" where
  "py_index xs i = (if i < length xs then Inr (xs ! i) else Inl IndexError)"

subsection \<open>Regular expressions\<close>

text \<open>
  The part of Python's \<open>re\<close> that the script's four patterns use, as a backtracking
  matcher. \<open>Rep lo hi p\<close> is a greedy repetition of a character class (\<open>p{lo,hi}\<close>, \<open>p*\<close>,
  \<open>p+\<close>, \<open>p?\<close>), \<open>Bnd w\<close> is \<open>\b\<close> for the word characters \<open>w\<close>, \<open>Grp\<close> is the (only)
  capturing group, \<open>Alt r Eps\<close> is \<open>(?:r)?\<close>.
\<close>

datatype rx =
    Lit nat
  | Bnd "nat \<Rightarrow> bool"
  | Eps
  | Rep nat "nat option" "nat \<Rightarrow> bool"
  | Seq rx rx
  | Alt rx rx
  | Grp rx

text \<open>
  A matcher state: the text before the position (reversed), the text from the position on,
  and what the group has captured. \<open>rmatch r st\<close> lists the states in which a match of \<open>r\<close>
  from \<open>st\<close> can end, in the order in which backtracking tries them: the first is the match
  that \<open>re\<close> reports.
\<close>

type_synonym mstate = "ustr \<times> ustr \<times> ustr option"

definition at_word :: "(nat \<Rightarrow> bool) \<Rightarrow> ustr \<Rightarrow> bool" where
  "at_word w s = (case s of [] \<Rightarrow> False | x # _ \<Rightarrow> w x)"

fun rmatch :: "rx \<Rightarrow> mstate \<Rightarrow> mstate list" where
  "rmatch (Lit a) (b, s, c) = (case s of [] \<Rightarrow> [] | x # xs \<Rightarrow> if x = a then [(x # b, xs, c)] else [])"
| "rmatch (Bnd w) (b, s, c) = (if at_word w b \<noteq> at_word w s then [(b, s, c)] else [])"
| "rmatch Eps (b, s, c) = [(b, s, c)]"
| "rmatch (Rep lo hi p) (b, s, c) =
     (let n = length (takeWhile p s);
          m = (case hi of None \<Rightarrow> n | Some h \<Rightarrow> min n h)
      in map (\<lambda>k. (rev (take k s) @ b, drop k s, c)) (rev [lo..<Suc m]))"
| "rmatch (Seq r1 r2) st = concat (map (rmatch r2) (rmatch r1 st))"
| "rmatch (Alt r1 r2) st = rmatch r1 st @ rmatch r2 st"
| "rmatch (Grp r) (b, s, c) =
     map (\<lambda>(b', s', c'). (b', s', Some (take (length s - length s') s))) (rmatch r (b, s, c))"

text \<open>\<open>re.search\<close>: the first match at the leftmost position that has one.\<close>

fun search_from :: "rx \<Rightarrow> ustr \<Rightarrow> ustr \<Rightarrow> mstate option" where
  "search_from r b [] = (case rmatch r (b, [], None) of [] \<Rightarrow> None | m # _ \<Rightarrow> Some m)"
| "search_from r b (x # xs) =
     (case rmatch r (b, x # xs, None) of [] \<Rightarrow> search_from r (x # b) xs | m # _ \<Rightarrow> Some m)"

definition re_search :: "rx \<Rightarrow> ustr \<Rightarrow> mstate option" where
  "re_search r s = search_from r [] s"

text \<open>\<open>m.group(1)\<close>; the group is not optional in any of the patterns, so it has a value in
  every match.\<close>

definition group1 :: "mstate \<Rightarrow> ustr" where
  "group1 m = (case m of (b, s, c) \<Rightarrow> (case c of Some g \<Rightarrow> g | None \<Rightarrow> []))"

text \<open>
  \<open>re.findall\<close> for a pattern with one group: the group of each match, the matches found
  left to right without overlap. After a match that consumed nothing the scan moves on by
  one character (none of the script's patterns matches the empty string).
\<close>

function findall_from :: "rx \<Rightarrow> ustr \<Rightarrow> ustr \<Rightarrow> ustr list" where
  "findall_from r b s =
     (case rmatch r (b, s, None) of
        [] \<Rightarrow> (case s of [] \<Rightarrow> [] | x # xs \<Rightarrow> findall_from r (x # b) xs)
      | m # _ \<Rightarrow>
          group1 m #
          (if length (fst (snd m)) < length s then findall_from r (fst m) (fst (snd m))
           else (case s of [] \<Rightarrow> [] | x # xs \<Rightarrow> findall_from r (x # b) xs)))"
  by pat_completeness auto
termination
  by (relation "measure (\<lambda>(r, b, s). length s)") auto

declare findall_from.simps [simp del]

definition re_findall :: "rx \<Rightarrow> ustr \<Rightarrow> ustr list" where
  "re_findall r s = findall_from r [] s"

text \<open>The patterns of the script.\<close>

definition upper :: "nat \<Rightarrow> bool" where
  "upper c = (65 \<le> c \<and> c \<le> 90)"

text \<open>\<open>[A-Z]{2}\d{3,4}\<close>\<close>

definition flight_core :: "pyrt \<Rightarrow> rx" where
  "flight_core P = Seq (Rep 2 (Some 2) upper) (Rep 3 (Some 4) (isdecimal P))"

text \<open>\<open>\b([A-Z]{2}\d{3,4})\b\<close>\<close>

definition flight_pattern :: "pyrt \<Rightarrow> rx" where
  "flight_pattern P = Seq (Bnd (isword P)) (Seq (Grp (flight_core P)) (Bnd (isword P)))"

text \<open>\<open>\b(\d{2}:\d{2})\b\<close>\<close>

definition time_pattern :: "pyrt \<Rightarrow> rx" where
  "time_pattern P =
     Seq (Bnd (isword P))
       (Seq (Grp (Seq (Rep 2 (Some 2) (isdecimal P)) (Seq (Lit 58) (Rep 2 (Some 2) (isdecimal P)))))
            (Bnd (isword P)))"

text \<open>\<open>[\<yen>\<yen>]?\s*(\d{3,5})\s*(?:\<dots>|\<dots>)?\<close>: the class holds U+00A5 and U+FFE5, the
  alternatives are U+5143 and U+8D77.\<close>

definition price_pattern :: "pyrt \<Rightarrow> rx" where
  "price_pattern P =
     Seq (Rep 0 (Some 1) (\<lambda>c. c = 165 \<or> c = 65509))
       (Seq (Rep 0 None (isspace P))
         (Seq (Grp (Rep 3 (Some 5) (isdecimal P)))
           (Seq (Rep 0 None (isspace P))
                (Alt (Alt (Lit 20803) (Lit 36215)) Eps))))"

text \<open>\<open>(\d+)\<close>\<close>

definition digits_pattern :: "pyrt \<Rightarrow> rx" where
  "digits_pattern P = Grp (Rep 1 None (isdecimal P))"

text \<open>Lines 306-307: \<open>re.search(r"(\d+)", price_elem.replace(",", ""))\<close> and the value
  stored under \<open>price\<close>.\<close>

definition parse_price :: "pyrt \<Rightarrow> ustr \<Rightarrow> ustr" where
  "parse_price P price_elem =
     (case re_search (digits_pattern P) (py_replace 44 [] price_elem) of
        Some price_match \<Rightarrow> group1 price_match
      | None \<Rightarrow> [])"

section \<open>The browser-automation runtime\<close>

text \<open>
  Playwright is not part of the repository: the model takes it as a parameter. \<open>'w\<close> is the
  state of the world (the browser and the page it shows). An action returns the exception
  it raises, if any, and the next state; a read returns a value or raises and leaves the state
  as it is: the page changes through actions and waits only. A \<open>locator\<close> is a lazy query, as
  in Playwright: building one touches nothing, and it is resolved each time it is used.
\<close>

datatype locator =
    Page_locator ustr
  | Sub locator ustr
  | First locator
  | Nth locator nat

record 'w playwright =
  pw_start :: "'w \<Rightarrow> exn option \<times> 'w"
  pw_stop :: "'w \<Rightarrow> exn option \<times> 'w"
  launch :: "'w \<Rightarrow> exn option \<times> 'w"
  new_context :: "'w \<Rightarrow> exn option \<times> 'w"
  new_page :: "'w \<Rightarrow> exn option \<times> 'w"
  browser_close :: "'w \<Rightarrow> exn option \<times> 'w"
  goto :: "string \<Rightarrow> 'w \<Rightarrow> exn option \<times> 'w"
  wait_for_timeout :: "nat \<Rightarrow> 'w \<Rightarrow> exn option \<times> 'w"
  wait_for_selector :: "ustr \<Rightarrow> nat \<Rightarrow> 'w \<Rightarrow> exn option \<times> 'w"
  keyboard_press :: "string \<Rightarrow> 'w \<Rightarrow> exn option \<times> 'w"
  click :: "locator \<Rightarrow> nat option \<Rightarrow> 'w \<Rightarrow> exn option \<times> 'w"
  fill :: "locator \<Rightarrow> ustr \<Rightarrow> 'w \<Rightarrow> exn option \<times> 'w"
  screenshot :: "string \<Rightarrow> 'w \<Rightarrow> exn option \<times> 'w"
  loc_count :: "locator \<Rightarrow> 'w \<Rightarrow> exn + nat"
  is_visible :: "locator \<Rightarrow> nat option \<Rightarrow> 'w \<Rightarrow> exn + bool"
  text_content :: "locator \<Rightarrow> 'w \<Rightarrow> exn + ustr option"
  all_text_contents :: "locator \<Rightarrow> 'w \<Rightarrow> exn + ustr list"
  page_content :: "'w \<Rightarrow> exn + ustr"
  inner_text :: "ustr \<Rightarrow> 'w \<Rightarrow> exn + ustr"

text \<open>\<open>locator.all()\<close>: one locator \<open>nth(i)\<close> for each element that matches now.\<close>

definition loc_all :: "'w playwright \<Rightarrow> locator \<Rightarrow> 'w \<Rightarrow> exn + locator list" where
  "loc_all env l w = (case loc_count env l w of Inl e \<Rightarrow> Inl e | Inr n \<Rightarrow> Inr (map (Nth l) [0..<n]))"

section \<open>FlightRecord\<close>

text \<open>The dictionary \<open>flight_info\<close>: each of its nine keys is absent (\<open>None\<close>) or holds a
  string.\<close>

record flight_info =
  airline :: "ustr option"
  flight_no :: "ustr option"
  aircraft :: "ustr option"
  depart_time :: "ustr option"
  arrive_time :: "ustr option"
  depart_airport :: "ustr option"
  arrive_airport :: "ustr option"
  price :: "ustr option"
  on_time_rate :: "ustr option"

definition empty_info :: flight_info where
  "empty_info = \<lparr> airline = None, flight_no = None, aircraft = None, depart_time = None,
                   arrive_time = None, depart_airport = None, arrive_airport = None,
                   price = None, on_time_rate = None \<rparr>"

text \<open>Truth value of \<open>d.get(k)\<close> and of a text that may be \<open>None\<close>: a non-empty string.\<close>

definition truthy :: "ustr option \<Rightarrow> bool" where
  "truthy v = (case v of None \<Rightarrow> False | Some s \<Rightarrow> s \<noteq> [])"

definition bindE :: "exn + 'a \<Rightarrow> ('a \<Rightarrow> exn + 'b) \<Rightarrow> exn + 'b" where
  "bindE r f = (case r of Inl e \<Rightarrow> Inl e | Inr x \<Rightarrow> f x)"

section \<open>Structured extraction: one card\<close>

definition airline_selector :: ustr where
  \<open>airline_selector = asc ''[class*="airline"], [class*="flight-no"], [class*="Airline"]''\<close>

definition time_selector :: ustr where
  \<open>time_selector = asc ''[class*="time"], [class*="Time"]''\<close>

definition airport_selector :: ustr where
  \<open>airport_selector = asc ''[class*="airport"], [class*="Airport"]''\<close>

definition price_selector :: ustr where
  \<open>price_selector = asc ''[class*="price"], [class*="Price"]''\<close>

definition craft_selector :: ustr where
  \<open>craft_selector = asc ''[class*="craft"], [class*="plane"], [class*="'' @ [26426, 22411] @ asc ''"]''\<close>

definition rate_selector :: ustr where
  \<open>rate_selector = asc ''[class*="rate"], [class*="'' @ [20934, 28857] @ asc ''"]''\<close>

text \<open>
  Lines 272-319, one definition for each read of the card \<open>elem\<close>. A step takes the dictionary
  built so far and returns it updated, or the exception that the read raised (the dictionary
  is then as it was before the step).
\<close>

definition step_airline :: "pyrt \<Rightarrow> 'w playwright \<Rightarrow> 'w \<Rightarrow> locator \<Rightarrow> flight_info \<Rightarrow> exn + flight_info" where
  "step_airline P env w elem fi =
     bindE (text_content env (First (Sub elem airline_selector)) w) (\<lambda>airline_text.
       if truthy airline_text then
         (let parts = py_split P (py_strip P (the airline_text)) in
          bindE (if parts \<noteq> [] then py_index parts 0 else Inr []) (\<lambda>a.
          bindE (if length parts > 1 then py_index parts 1 else Inr []) (\<lambda>f.
            Inr (fi\<lparr>airline := Some a, flight_no := Some f\<rparr>))))
       else Inr fi)"

definition step_times :: "pyrt \<Rightarrow> 'w playwright \<Rightarrow> 'w \<Rightarrow> locator \<Rightarrow> flight_info \<Rightarrow> exn + flight_info" where
  "step_times P env w elem fi =
     bindE (all_text_contents env (Sub elem time_selector) w) (\<lambda>time_elems.
       if length time_elems \<ge> 2 then
         bindE (py_index time_elems 0) (\<lambda>t0.
         bindE (py_index time_elems 1) (\<lambda>t1.
           Inr (fi\<lparr>depart_time := Some (py_strip P t0), arrive_time := Some (py_strip P t1)\<rparr>)))
       else Inr fi)"

definition step_airports :: "pyrt \<Rightarrow> 'w playwright \<Rightarrow> 'w \<Rightarrow> locator \<Rightarrow> flight_info \<Rightarrow> exn + flight_info" where
  "step_airports P env w elem fi =
     bindE (all_text_contents env (Sub elem airport_selector) w) (\<lambda>airport_elems.
       if length airport_elems \<ge> 2 then
         bindE (py_index airport_elems 0) (\<lambda>a0.
         bindE (py_index airport_elems 1) (\<lambda>a1.
           Inr (fi\<lparr>depart_airport := Some (py_strip P a0), arrive_airport := Some (py_strip P a1)\<rparr>)))
       else Inr fi)"

definition step_price :: "pyrt \<Rightarrow> 'w playwright \<Rightarrow> 'w \<Rightarrow> locator \<Rightarrow> flight_info \<Rightarrow> exn + flight_info" where
  "step_price P env w elem fi =
     bindE (text_content env (First (Sub elem price_selector)) w) (\<lambda>price_elem.
       if truthy price_elem then Inr (fi\<lparr>price := Some (parse_price P (the price_elem))\<rparr>)
       else Inr fi)"

definition step_craft :: "pyrt \<Rightarrow> 'w playwright \<Rightarrow> 'w \<Rightarrow> locator \<Rightarrow> flight_info \<Rightarrow> exn + flight_info" where
  "step_craft P env w elem fi =
     bindE (text_content env (First (Sub elem craft_selector)) w) (\<lambda>craft_elem.
       Inr (fi\<lparr>aircraft := Some (if truthy craft_elem then py_strip P (the craft_elem) else [])\<rparr>))"

definition step_rate :: "pyrt \<Rightarrow> 'w playwright \<Rightarrow> 'w \<Rightarrow> locator \<Rightarrow> flight_info \<Rightarrow> exn + flight_info" where
  "step_rate P env w elem fi =
     bindE (text_content env (First (Sub elem rate_selector)) w) (\<lambda>rate_elem.
       Inr (fi\<lparr>on_time_rate := Some (if truthy rate_elem then py_strip P (the rate_elem) else [])\<rparr>))"

text \<open>The statements of a \<open>try\<close> body in order: the dictionary when the body ends, and the
  exception that ended it, if one did.\<close>

fun run_steps :: "(flight_info \<Rightarrow> exn + flight_info) list \<Rightarrow> flight_info \<Rightarrow> flight_info \<times> exn option" where
  "run_steps [] fi = (fi, None)"
| "run_steps (step # steps) fi =
     (case step fi of Inl e \<Rightarrow> (fi, Some e) | Inr fi' \<Rightarrow> run_steps steps fi')"

definition card_attempts :: "pyrt \<Rightarrow> 'w playwright \<Rightarrow> 'w \<Rightarrow> locator \<Rightarrow> flight_info \<times> exn option" where
  "card_attempts P env w elem =
     run_steps [step_airline P env w elem, step_times P env w elem, step_airports P env w elem,
                step_price P env w elem, step_craft P env w elem, step_rate P env w elem]
       empty_info"

text \<open>Line 322: \<open>flight_info.get("flight_no") or flight_info.get("price")\<close>.\<close>

definition has_basic_info :: "flight_info \<Rightarrow> bool" where
  "has_basic_info fi = (truthy (flight_no fi) \<or> truthy (price fi))"

text \<open>
  Lines 270-326, the loop over the cards: \<open>except Exception: continue\<close> drops the card whose
  body raised; an exception that is not an \<open>Exception\<close> leaves the function.
\<close>

fun structured_loop ::
  "pyrt \<Rightarrow> 'w playwright \<Rightarrow> 'w \<Rightarrow> locator list \<Rightarrow> flight_info list \<Rightarrow> exn + flight_info list" where
  "structured_loop P env w [] flights = Inr flights"
| "structured_loop P env w (elem # rest) flights =
     (case card_attempts P env w elem of
        (fi, None) \<Rightarrow>
          structured_loop P env w rest (if has_basic_info fi then flights @ [fi] else flights)
      | (fi, Some e) \<Rightarrow>
          if is_Exception e then structured_loop P env w rest flights else Inl e)"

text \<open>\<open>for elem in flight_elements[:20]\<close>, from \<open>flights = []\<close>.\<close>

definition structured_records ::
  "pyrt \<Rightarrow> 'w playwright \<Rightarrow> 'w \<Rightarrow> locator list \<Rightarrow> exn + flight_info list" where
  "structured_records P env w flight_elements = structured_loop P env w (take 20 flight_elements) []"

section \<open>Fallback extraction\<close>

text \<open>Lines 361-366: the dictionary for the \<open>i\<close>-th unique flight number.\<close>

definition generic_record :: "ustr list \<Rightarrow> ustr list \<Rightarrow> nat \<Rightarrow> ustr \<Rightarrow> exn + flight_info" where
  "generic_record times' prices i fno =
     bindE (if i * 2 < length times' then py_index times' (i * 2) else Inr []) (\<lambda>dt.
     bindE (if i * 2 + 1 < length times' then py_index times' (i * 2 + 1) else Inr []) (\<lambda>at.
     bindE (if i < length prices then py_index prices i else Inr []) (\<lambda>p.
       Inr (empty_info\<lparr>flight_no := Some fno, depart_time := Some dt, arrive_time := Some at,
                        price := Some p\<rparr>))))"

text \<open>Lines 360-367: the loop appends to \<open>flights\<close>; an exception ends it with what was
  appended so far.\<close>

fun generic_loop ::
  "ustr list \<Rightarrow> ustr list \<Rightarrow> (nat \<times> ustr) list \<Rightarrow> flight_info list \<Rightarrow> flight_info list \<times> exn option" where
  "generic_loop times' prices [] flights = (flights, None)"
| "generic_loop times' prices ((i, fno) # rest) flights =
     (case generic_record times' prices i fno of
        Inl e \<Rightarrow> (flights, Some e)
      | Inr fi \<Rightarrow> generic_loop times' prices rest (flights @ [fi]))"

definition enumerate_from0 :: "'a list \<Rightarrow> (nat \<times> 'a) list" where
  "enumerate_from0 xs = zip [0..<length xs] xs"

text \<open>Lines 347-367 for the body text \<open>txt\<close>.\<close>

definition generic_from_text :: "pyrt \<Rightarrow> ustr \<Rightarrow> flight_info list \<times> exn option" where
  "generic_from_text P txt =
     (let flight_numbers = re_findall (flight_pattern P) txt;
          times' = re_findall (time_pattern P) txt;
          prices = re_findall (price_pattern P) txt;
          unique_flights = set_list P flight_numbers
      in generic_loop times' prices (enumerate_from0 (take 10 unique_flights)) [])"

section \<open>Effects\<close>

text \<open>
  What a run does to the outside is recorded as a list of events: each call of an action of
  the runtime, at the moment it is called (whether or not it then raises), and each
  \<open>print\<close>. Reads are not recorded. A message stands for one \<open>print\<close> of the source with
  the values it formats; \<open>M_report\<close> is the report of lines 150-175 (the header with the date
  and the number of flights, then the flights or the advice that none was found).
\<close>

datatype msg =
    M_date string
  | M_launching
  | M_nav_ctrip
  | M_check_popups
  | M_nav_domestic
  | M_filling
  | M_depart_prefilled exn
  | M_arrive_prefilled exn
  | M_click_search
  | M_search_skipped exn
  | M_waiting
  | M_no_list_warning
  | M_extracting
  | M_report string "flight_info list"
  | M_closing_30
  | M_error exn
  | M_screenshot_saved string
  | M_hold_60
  | M_done
  | M_handled ustr
  | M_using_selector ustr nat
  | M_try_generic
  | M_generic_failed exn

datatype event =
    Print msg
  | Traceback
  | Start
  | Stop
  | Launch
  | NewContext
  | NewPage
  | CloseBrowser
  | Goto string
  | WaitForTimeout nat
  | WaitForSelector ustr nat
  | Press string
  | Click locator "nat option"
  | Fill locator ustr
  | Screenshot string

record 'w st =
  world :: 'w
  events :: "event list"

text \<open>A statement: from a state to the value it returns or the exception it raises, and the
  state it leaves.\<close>

type_synonym ('a, 'w) prog = "'w st \<Rightarrow> (exn + 'a) \<times> 'w st"

definition ret :: "'a \<Rightarrow> ('a, 'w) prog" where
  "ret x = (\<lambda>s. (Inr x, s))"

definition throw :: "exn \<Rightarrow> ('a, 'w) prog" where
  "throw e = (\<lambda>s. (Inl e, s))"

definition bind :: "('a, 'w) prog \<Rightarrow> ('a \<Rightarrow> ('b, 'w) prog) \<Rightarrow> ('b, 'w) prog" where
  "bind m f = (\<lambda>s. case m s of (Inl e, s') \<Rightarrow> (Inl e, s') | (Inr x, s') \<Rightarrow> f x s')"

text \<open>Statements one after the other.\<close>

fun block :: "(unit, 'w) prog list \<Rightarrow> (unit, 'w) prog" where
  "block [] = ret ()"
| "block (m # ms) = bind m (\<lambda>_. block ms)"

definition emit :: "event \<Rightarrow> (unit, 'w) prog" where
  "emit ev = (\<lambda>s. (Inr (), s\<lparr>events := events s @ [ev]\<rparr>))"

text \<open>An action of the runtime, recorded as \<open>ev\<close>.\<close>

definition act :: "event \<Rightarrow> ('w \<Rightarrow> exn option \<times> 'w) \<Rightarrow> (unit, 'w) prog" where
  "act ev f = (\<lambda>s. case f (world s) of
                      (None, w') \<Rightarrow> (Inr (), s\<lparr>world := w', events := events s @ [ev]\<rparr>)
                    | (Some e, w') \<Rightarrow> (Inl e, s\<lparr>world := w', events := events s @ [ev]\<rparr>))"

text \<open>A read.\<close>

definition query :: "('w \<Rightarrow> exn + 'a) \<Rightarrow> ('a, 'w) prog" where
  "query f = (\<lambda>s. (f (world s), s))"

text \<open>\<open>try: m except C as e: h e\<close>, where \<open>catches\<close> says which exceptions \<open>C\<close> covers
  (\<open>\<lambda>_. True\<close> for a bare \<open>except:\<close>).\<close>

definition try_except :: "('a, 'w) prog \<Rightarrow> (exn \<Rightarrow> bool) \<Rightarrow> (exn \<Rightarrow> ('a, 'w) prog) \<Rightarrow> ('a, 'w) prog" where
  "try_except m catches h =
     (\<lambda>s. case m s of
             (Inl e, s') \<Rightarrow> if catches e then h e s' else (Inl e, s')
           | (Inr x, s') \<Rightarrow> (Inr x, s'))"

text \<open>\<open>try: m finally: fin\<close>: \<open>fin\<close> runs however \<open>m\<close> ends; what \<open>fin\<close> raises replaces
  the outcome of \<open>m\<close>.\<close>

definition try_finally :: "('a, 'w) prog \<Rightarrow> (unit, 'w) prog \<Rightarrow> ('a, 'w) prog" where
  "try_finally m fin =
     (\<lambda>s. case m s of
             (r, s') \<Rightarrow> (case fin s' of (Inl e, s'') \<Rightarrow> (Inl e, s'') | (Inr _, s'') \<Rightarrow> (r, s'')))"

definition wait_ms :: "'w playwright \<Rightarrow> nat \<Rightarrow> (unit, 'w) prog" where
  "wait_ms env n = act (WaitForTimeout n) (wait_for_timeout env n)"

section \<open>handle\_popups\<close>

definition popup_handlers :: "(ustr \<times> ustr) list" where
  \<open>popup_handlers =
    [(asc ''button[class*="close"], [class*="close-btn"], .close, [aria-label="'' @ [20851, 38381] @ asc ''"]'',
      [20851, 38381, 25353, 38062]),
     (asc ''[class*="modal"] button[class*="close"], [class*="dialog"] [class*="close"]'',
      [24377, 31383, 20851, 38381]),
     (asc ''[class*="app-download"] .close, [class*="download"] .close'',
      asc ''APP'' @ [19979, 36733, 25552, 31034]),
     (asc ''button:has-text("'' @ [31245, 21518, 20877, 35828] @ asc ''"), button:has-text("'' @ [26242, 19981]
        @ asc ''"), button:has-text("'' @ [21462, 28040] @ asc ''")'',
      [31245, 21518, 25552, 31034]),
     (asc ''button:has-text("'' @ [25509, 21463] @ asc ''"), button:has-text("'' @ [21516, 24847]
        @ asc ''"), button:has-text("'' @ [25105, 30693, 36947, 20102] @ asc ''")'',
      asc ''Cookie'' @ [25552, 31034])]\<close>

text \<open>Lines 231-235: the loop over the elements of one pattern.\<close>

fun click_visible :: "'w playwright \<Rightarrow> ustr \<Rightarrow> locator list \<Rightarrow> (unit, 'w) prog" where
  "click_visible env desc [] = ret ()"
| "click_visible env desc (elem # elems) =
     bind (query (is_visible env elem (Some 1000))) (\<lambda>v.
       if v then
         bind (block [act (Click elem (Some 2000)) (click env elem (Some 2000)),
                      emit (Print (M_handled desc)),
                      wait_ms env 500]) (\<lambda>_. click_visible env desc elems)
       else click_visible env desc elems)"

text \<open>Lines 229-237: one pattern, inside \<open>try\<close> with a bare \<open>except: pass\<close>.\<close>

definition handle_pattern :: "'w playwright \<Rightarrow> ustr \<times> ustr \<Rightarrow> (unit, 'w) prog" where
  "handle_pattern env h =
     (case h of (selector, desc) \<Rightarrow>
        try_except
          (bind (query (loc_all env (Page_locator selector))) (click_visible env desc))
          (\<lambda>_. True) (\<lambda>_. ret ()))"

definition handle_popups :: "'w playwright \<Rightarrow> (unit, 'w) prog" where
  "handle_popups env = block (map (handle_pattern env) popup_handlers)"

section \<open>Filling the form and submitting it\<close>

definition depart_input_selector :: ustr where
  \<open>depart_input_selector =
     asc ''input[placeholder*="'' @ [20986, 21457] @ asc ''"], input[placeholder*="'' @ [35831, 36755, 20837] @ asc ''"]''\<close>

definition arrive_input_selector :: ustr where
  \<open>arrive_input_selector =
     asc ''input[placeholder*="'' @ [21040, 36798] @ asc ''"], input[placeholder*="'' @ [30446, 30340] @ asc ''"]''\<close>

text \<open>The two city names (U+6D77 U+53E3 and U+5317 U+4EAC).\<close>

definition haikou :: ustr where
  "haikou = [28023, 21475]"

definition beijing :: ustr where
  "beijing = [21271, 20140]"

text \<open>Lines 77-90 and 92-104: the two blocks differ in the selector, the city and the
  message.\<close>

definition fill_city :: "'w playwright \<Rightarrow> ustr \<Rightarrow> ustr \<Rightarrow> (exn \<Rightarrow> msg) \<Rightarrow> (unit, 'w) prog" where
  "fill_city env selector city m =
     try_except
       (let input = First (Page_locator selector) in
        bind (query (is_visible env input None)) (\<lambda>v.
          if v then
            block [act (Click input None) (click env input None),
                   wait_ms env 500,
                   act (Fill input city) (fill env input city),
                   wait_ms env 1000,
                   act (Press ''Enter'') (keyboard_press env ''Enter'')]
          else ret ()))
       is_Exception (\<lambda>e. emit (Print (m e)))"

definition search_selectors :: "ustr list" where
  \<open>search_selectors =
     [asc ''button:has-text("'' @ [25628, 32034] @ asc ''")'',
      asc ''button:has-text("'' @ [26597, 35810] @ asc ''")'',
      asc ''.search-btn'',
      asc ''[class*="search"]'',
      asc ''button[type="submit"]'']\<close>

text \<open>Lines 118-125: the loop over the candidates. The body of the inner \<open>try\<close> returns
  whether it reached \<open>break\<close>; the bare \<open>except: continue\<close> goes on with the next candidate.\<close>

definition try_candidate :: "'w playwright \<Rightarrow> ustr \<Rightarrow> (bool, 'w) prog" where
  "try_candidate env selector =
     (let search_btn = First (Page_locator selector) in
      bind (query (is_visible env search_btn (Some 2000))) (\<lambda>v.
        if v then bind (act (Click search_btn None) (click env search_btn None)) (\<lambda>_. ret True)
        else ret False))"

fun try_search_buttons :: "'w playwright \<Rightarrow> ustr list \<Rightarrow> (unit, 'w) prog" where
  "try_search_buttons env [] = ret ()"
| "try_search_buttons env (selector # rest) =
     (\<lambda>s. case try_candidate env selector s of
             (Inr True, s') \<Rightarrow> (Inr (), s')
           | (Inr False, s') \<Rightarrow> try_search_buttons env rest s'
           | (Inl e, s') \<Rightarrow> try_search_buttons env rest s')"

text \<open>Lines 108-127.\<close>

definition click_search_button :: "'w playwright \<Rightarrow> (unit, 'w) prog" where
  "click_search_button env =
     try_except (try_search_buttons env search_selectors)
       is_Exception (\<lambda>e. emit (Print (M_search_skipped e)))"

section \<open>extract\_generic\_flight\_info and extract\_flight\_info\<close>

text \<open>Lines 336-372: \<open>except Exception\<close> prints and falls through to \<open>return flights\<close>.\<close>

definition extract_generic_flight_info :: "pyrt \<Rightarrow> 'w playwright \<Rightarrow> (flight_info list, 'w) prog" where
  "extract_generic_flight_info P env =
     (\<lambda>s. case inner_text env (asc ''body'') (world s) of
             Inl e \<Rightarrow>
               if is_Exception e then bind (emit (Print (M_generic_failed e))) (\<lambda>_. ret []) s
               else (Inl e, s)
           | Inr text_content' \<Rightarrow>
               (case generic_from_text P text_content' of
                  (flights, None) \<Rightarrow> (Inr flights, s)
                | (flights, Some e) \<Rightarrow>
                    if is_Exception e then bind (emit (Print (M_generic_failed e))) (\<lambda>_. ret flights) s
                    else (Inl e, s)))"

definition card_selectors :: "ustr list" where
  \<open>card_selectors =
     [asc ''[class*="flight-item"]'',
      asc ''[class*="FlightItem"]'',
      asc ''[class*="list-item"]'',
      asc ''[class*="flight-card"]'',
      asc ''[data-flight]'',
      asc ''.flight-box'']\<close>

text \<open>Lines 258-267: the first selector with at least one element; a selector whose query
  raises is skipped (bare \<open>except: continue\<close>).\<close>

fun find_flight_elements :: "'w playwright \<Rightarrow> ustr list \<Rightarrow> (locator list, 'w) prog" where
  "find_flight_elements env [] = ret []"
| "find_flight_elements env (selector # rest) =
     (\<lambda>s. case loc_all env (Page_locator selector) (world s) of
             Inl e \<Rightarrow> find_flight_elements env rest s
           | Inr elements \<Rightarrow>
               if elements \<noteq> [] then
                 bind (emit (Print (M_using_selector selector (length elements)))) (\<lambda>_. ret elements) s
               else find_flight_elements env rest s)"

text \<open>Lines 240-333.\<close>

definition extract_flight_info :: "pyrt \<Rightarrow> 'w playwright \<Rightarrow> (flight_info list, 'w) prog" where
  "extract_flight_info P env =
     bind (query (page_content env)) (\<lambda>content.
     bind (find_flight_elements env card_selectors) (\<lambda>flight_elements.
     bind (query (\<lambda>w. structured_records P env w flight_elements)) (\<lambda>flights.
       if flights = [] then
         bind (emit (Print M_try_generic)) (\<lambda>_. extract_generic_flight_info P env)
       else ret flights)))"

section \<open>The date\<close>

text \<open>
  The calendar date of a \<open>datetime\<close> (the time of day plays no part in the script).
  \<open>datetime\<close> holds the years 1 to 9999; adding a day to the last one raises OverflowError.
\<close>

record date =
  year :: nat
  month :: nat
  day :: nat

definition is_leap :: "nat \<Rightarrow> bool" where
  "is_leap y = (y mod 4 = 0 \<and> (y mod 100 \<noteq> 0 \<or> y mod 400 = 0))"

definition days_in_month :: "nat \<Rightarrow> nat \<Rightarrow> nat" where
  "days_in_month y m =
     (if m = 2 then (if is_leap y then 29 else 28)
      else if m = 4 \<or> m = 6 \<or> m = 9 \<or> m = 11 then 30 else 31)"

definition valid_date :: "date \<Rightarrow> bool" where
  "valid_date d = (1 \<le> year d \<and> year d \<le> 9999 \<and> 1 \<le> month d \<and> month d \<le> 12 \<and>
                   1 \<le> day d \<and> day d \<le> days_in_month (year d) (month d))"

text \<open>\<open>d + timedelta(days=1)\<close>\<close>

definition add_one_day :: "date \<Rightarrow> exn + date" where
  "add_one_day d =
     (if day d < days_in_month (year d) (month d) then Inr (d\<lparr>day := day d + 1\<rparr>)
      else if month d < 12 then Inr (d\<lparr>month := month d + 1, day := 1\<rparr>)
      else if year d < 9999 then Inr \<lparr>year = year d + 1, month = 1, day = 1\<rparr>
      else Inl OverflowError)"

text \<open>A number in decimal, and padded with zeros on the left to a width.\<close>

definition digit_char :: "nat \<Rightarrow> char" where
  "digit_char n = ''0123456789'' ! n"

fun dec :: "nat \<Rightarrow> string" where
  "dec n = (if n < 10 then [digit_char n] else dec (n div 10) @ [digit_char (n mod 10)])"

declare dec.simps [simp del]

definition zpad :: "nat \<Rightarrow> nat \<Rightarrow> string" where
  "zpad w n = replicate (w - length (dec n)) (CHR ''0'') @ dec n"

text \<open>\<open>d.strftime(fmt)\<close> for the directives \<open>%Y\<close>, \<open>%m\<close> and \<open>%d\<close>: the year with
  century (four digits from the year 1000 on, what the platform writes before), the month
  and the day in two digits.\<close>

fun strftime :: "pyrt \<Rightarrow> string \<Rightarrow> date \<Rightarrow> string" where
  "strftime P [] d = []"
| "strftime P [c] d = [c]"
| "strftime P (c # k # fmt) d =
     (if c = CHR ''%'' \<and> k = CHR ''Y'' then
        (if 1000 \<le> year d then zpad 4 (year d) else early_year P (year d)) @ strftime P fmt d
      else if c = CHR ''%'' \<and> k = CHR ''m'' then zpad 2 (month d) @ strftime P fmt d
      else if c = CHR ''%'' \<and> k = CHR ''d'' then zpad 2 (day d) @ strftime P fmt d
      else c # strftime P (k # fmt) d)"

text \<open>\<open>template.format(a)\<close> for a template with one field \<open>{}\<close>.\<close>

fun py_format :: "string \<Rightarrow> string \<Rightarrow> string" where
  "py_format [] a = []"
| "py_format [c] a = [c]"
| "py_format (c # k # t) a =
     (if c = CHR ''{'' \<and> k = CHR ''}'' then a @ t else c # py_format (k # t) a)"

definition international_url :: string where
  "international_url = ''https://flights.ctrip.com/international/search/oneway-sha-bjs?depdate={}&cabin=y_s''"

definition domestic_url :: string where
  "domestic_url = ''https://flights.ctrip.com/online/list/oneway-hak-bjs?depdate={}&cabin=y_s''"

text \<open>The same dates as the specification writes them: \<open>YYYYMMDD\<close> and \<open>YYYY-MM-DD\<close>.\<close>

definition fmt_YYYYMMDD :: "date \<Rightarrow> string" where
  "fmt_YYYYMMDD d = zpad 4 (year d) @ zpad 2 (month d) @ zpad 2 (day d)"

definition fmt_YYYY_MM_DD :: "date \<Rightarrow> string" where
  "fmt_YYYY_MM_DD d = zpad 4 (year d) @ ''-'' @ zpad 2 (month d) @ ''-'' @ zpad 2 (day d)"

section \<open>search\_flights\<close>

definition flight_list_selector :: ustr where
  \<open>flight_list_selector = asc ''[class*="flight"], [class*="Flight"], [class*="list-item"]''\<close>

text \<open>Lines 43-179, the body of the outer \<open>try\<close>. \<open>goto\<close> is called with
  \<open>wait_until="domcontentloaded"\<close> and \<open>timeout=60000\<close> both times.\<close>

definition main_sequence :: "pyrt \<Rightarrow> 'w playwright \<Rightarrow> string \<Rightarrow> (unit, 'w) prog" where
  "main_sequence P env tomorrow_str =
     block
       [emit (Print M_nav_ctrip),
        (let url = py_format international_url (py_replace (CHR ''-'') [] tomorrow_str)
         in act (Goto url) (goto env url)),
        wait_ms env 3000,
        emit (Print M_check_popups),
        handle_popups env,
        emit (Print M_nav_domestic),
        (let url = py_format domestic_url (py_replace (CHR ''-'') [] tomorrow_str)
         in act (Goto url) (goto env url)),
        wait_ms env 3000,
        handle_popups env,
        emit (Print M_filling),
        fill_city env depart_input_selector haikou M_depart_prefilled,
        fill_city env arrive_input_selector beijing M_arrive_prefilled,
        emit (Print M_click_search),
        click_search_button env,
        emit (Print M_waiting),
        wait_ms env 5000,
        try_except
          (act (WaitForSelector flight_list_selector 30000)
               (wait_for_selector env flight_list_selector 30000))
          is_PlaywrightTimeoutError (\<lambda>e. emit (Print M_no_list_warning)),
        handle_popups env,
        emit (Print M_extracting),
        bind (extract_flight_info P env) (\<lambda>flights.
          block [emit (Print (M_report tomorrow_str flights)),
                 emit (Print M_closing_30),
                 wait_ms env 30000])]"

text \<open>Lines 181-194, the handler \<open>except Exception as e\<close>.\<close>

definition error_handler :: "'w playwright \<Rightarrow> exn \<Rightarrow> (unit, 'w) prog" where
  "error_handler env e =
     block
       [emit (Print (M_error e)),
        emit Traceback,
        (let screenshot_path = ''error_screenshot.png''
         in bind (act (Screenshot screenshot_path) (screenshot env screenshot_path)) (\<lambda>_.
              emit (Print (M_screenshot_saved screenshot_path)))),
        emit (Print M_hold_60),
        wait_ms env 60000]"

text \<open>Lines 196-198, the \<open>finally\<close> block.\<close>

definition cleanup :: "'w playwright \<Rightarrow> (unit, 'w) prog" where
  "cleanup env = block [act CloseBrowser (browser_close env), emit (Print M_done)]"

text \<open>Lines 42-198: \<open>try\<close>, \<open>except Exception\<close>, \<open>finally\<close>.\<close>

definition guarded_main :: "pyrt \<Rightarrow> 'w playwright \<Rightarrow> string \<Rightarrow> (unit, 'w) prog" where
  "guarded_main P env tomorrow_str =
     try_finally
       (try_except (main_sequence P env tomorrow_str) is_Exception (error_handler env))
       (cleanup env)"

text \<open>Lines 23-40 and the \<open>try\<close> statement, inside \<open>async with async_playwright()\<close>: the
  driver is stopped however the block ends.\<close>

definition with_browser :: "pyrt \<Rightarrow> 'w playwright \<Rightarrow> string \<Rightarrow> (unit, 'w) prog" where
  "with_browser P env tomorrow_str =
     bind (act Start (pw_start env)) (\<lambda>_.
       try_finally
         (block [emit (Print M_launching),
                 act Launch (launch env),
                 act NewContext (new_context env),
                 act NewPage (new_page env),
                 guarded_main P env tomorrow_str])
         (act Stop (pw_stop env)))"

text \<open>Lines 15-198; \<open>today\<close> is the date of \<open>datetime.now()\<close>.\<close>

definition search_flights :: "pyrt \<Rightarrow> 'w playwright \<Rightarrow> date \<Rightarrow> (unit, 'w) prog" where
  "search_flights P env today =
     (case add_one_day today of
        Inl e \<Rightarrow> throw e
      | Inr tomorrow \<Rightarrow>
          (let tomorrow_str = strftime P ''%Y-%m-%d'' tomorrow in
           bind (emit (Print (M_date tomorrow_str))) (\<lambda>_. with_browser P env tomorrow_str)))"

section \<open>What the specification's words mean\<close>

text \<open>
  A string matches a pattern, as a whole: the language of the pattern, read off its syntax
  (\<open>\b\<close> consumes nothing, a group matches what its body matches).
\<close>

fun lang :: "rx \<Rightarrow> ustr \<Rightarrow> bool" where
  "lang (Lit a) w = (w = [a])"
| "lang (Bnd p) w = (w = [])"
| "lang Eps w = (w = [])"
| "lang (Rep lo hi p) w =
     (lo \<le> length w \<and> (case hi of None \<Rightarrow> True | Some h \<Rightarrow> length w \<le> h) \<and> list_all p w)"
| "lang (Seq r1 r2) w = list_ex (\<lambda>k. lang r1 (take k w) \<and> lang r2 (drop k w)) [0..<Suc (length w)]"
| "lang (Alt r1 r2) w = (lang r1 w \<or> lang r2 w)"
| "lang (Grp r) w = lang r w"

text \<open>The dictionary of lines 361-366 with its guarded reads written out.\<close>

definition paired_record :: "ustr list \<Rightarrow> ustr list \<Rightarrow> nat \<Rightarrow> ustr \<Rightarrow> flight_info" where
  "paired_record tms prs i fno =
     empty_info\<lparr>flight_no := Some fno,
                 depart_time := Some (if i * 2 < length tms then tms ! (i * 2) else []),
                 arrive_time := Some (if i * 2 + 1 < length tms then tms ! (i * 2 + 1) else []),
                 price := Some (if i < length prs then prs ! i else [])\<rparr>"

text \<open>The two times are both present or both absent, and so are the two airports.\<close>

definition paired :: "flight_info \<Rightarrow> bool" where
  "paired fi = ((depart_time fi = None) = (arrive_time fi = None) \<and>
                (depart_airport fi = None) = (arrive_airport fi = None))"

text \<open>A card whose body ran to its end and whose dictionary passed the test of line 322.\<close>

definition kept :: "pyrt \<Rightarrow> 'w playwright \<Rightarrow> 'w \<Rightarrow> locator \<Rightarrow> bool" where
  "kept P env w elem =
     (snd (card_attempts P env w elem) = None \<and> has_basic_info (fst (card_attempts P env w elem)))"

text \<open>A statement only appends events, and every event it appends satisfies \<open>Q\<close>.\<close>

definition adds :: "(event \<Rightarrow> bool) \<Rightarrow> ('a, 'w) prog \<Rightarrow> bool" where
  "adds Q m = (\<forall>s. \<exists>evs. events (snd (m s)) = events s @ evs \<and> list_all Q evs)"

text \<open>An event that shows no date: neither a navigation nor one of the two messages that
  format the date.\<close>

definition plain :: "event \<Rightarrow> bool" where
  "plain ev = (case ev of
                 Goto u \<Rightarrow> False
               | Print m \<Rightarrow> (case m of M_date x \<Rightarrow> False | M_report x fl \<Rightarrow> False | _ \<Rightarrow> True)
               | _ \<Rightarrow> True)"

text \<open>An event that shows the date \<open>tm\<close> where it shows a date: a navigation goes to one of
  the two search URLs with \<open>tm\<close> as \<open>YYYYMMDD\<close>, a message that formats the date has it as
  \<open>YYYY-MM-DD\<close>.\<close>

definition date_ok :: "date \<Rightarrow> event \<Rightarrow> bool" where
  "date_ok tm ev =
     (case ev of
        Goto u \<Rightarrow>
          u = ''https://flights.ctrip.com/international/search/oneway-sha-bjs?depdate='' @ fmt_YYYYMMDD tm @ ''&cabin=y_s'' \<or>
          u = ''https://flights.ctrip.com/online/list/oneway-hak-bjs?depdate='' @ fmt_YYYYMMDD tm @ ''&cabin=y_s''
      | Print m \<Rightarrow> (case m of M_date x \<Rightarrow> x = fmt_YYYY_MM_DD tm | M_report x fl \<Rightarrow> x = fmt_YYYY_MM_DD tm | _ \<Rightarrow> True)
      | _ \<Rightarrow> True)"

text \<open>
  \<open>today + 1 day\<close>: the date whose day number is one more. The day number of a date counts
  the days of the proleptic Gregorian calendar from 0001-01-01, which is day 1 (it is what
  \<open>date.toordinal()\<close> returns, and the last date of \<open>datetime\<close>, 9999-12-31, is day
  3652059): the days of the years before, the days of the months before in the same year (a
  table for a common year, one more after February in a leap year), and the day of the month.
\<close>

definition days_before_year :: "nat \<Rightarrow> nat" where
  "days_before_year y = (let y' = y - 1 in y' * 365 + y' div 4 - y' div 100 + y' div 400)"

definition days_before_month :: "nat \<Rightarrow> nat \<Rightarrow> nat" where
  "days_before_month y m =
     [0, 0, 31, 59, 90, 120, 151, 181, 212, 243, 273, 304, 334] ! m +
     (if m > 2 \<and> is_leap y then 1 else 0)"

definition toordinal :: "date \<Rightarrow> nat" where
  "toordinal d = days_before_year (year d) + days_before_month (year d) (month d) + day d"

section \<open>Concrete runs\<close>

text \<open>A runtime that knows the ASCII characters only, lists a set in first-seen order and
  writes an early year without leading zeros.\<close>

definition ascii_rt :: pyrt where
  "ascii_rt = \<lparr> isdecimal = (\<lambda>c. 48 \<le> c \<and> c \<le> 57),
                isspace = (\<lambda>c. c = 32 \<or> (9 \<le> c \<and> c \<le> 13) \<or> (28 \<le> c \<and> c \<le> 31)),
                isalnum = (\<lambda>c. (48 \<le> c \<and> c \<le> 57) \<or> (65 \<le> c \<and> c \<le> 90) \<or> (97 \<le> c \<and> c \<le> 122)),
                set_list = remdups,
                early_year = dec \<rparr>"

text \<open>A browser in which every action succeeds and the page has no elements and no text;
  the runs below change it where they need something else.\<close>

definition idle_env :: "'w playwright" where
  "idle_env =
     \<lparr> pw_start = (\<lambda>w. (None, w)), pw_stop = (\<lambda>w. (None, w)), launch = (\<lambda>w. (None, w)),
       new_context = (\<lambda>w. (None, w)), new_page = (\<lambda>w. (None, w)),
       browser_close = (\<lambda>w. (None, w)), goto = (\<lambda>u w. (None, w)),
       wait_for_timeout = (\<lambda>n w. (None, w)), wait_for_selector = (\<lambda>l n w. (None, w)),
       keyboard_press = (\<lambda>k w. (None, w)), click = (\<lambda>l n w. (None, w)),
       fill = (\<lambda>l v w. (None, w)), screenshot = (\<lambda>f w. (None, w)),
       loc_count = (\<lambda>l w. Inr 0), is_visible = (\<lambda>l n w. Inr False),
       text_content = (\<lambda>l w. Inr None), all_text_contents = (\<lambda>l w. Inr []),
       page_content = (\<lambda>w. Inr []), inner_text = (\<lambda>l w. Inr []) \<rparr>"

definition s0 :: "unit st" where
  "s0 = \<lparr> world = (), events = [] \<rparr>"

text \<open>The price text of the specification's example: U+00A5, \<open>1,230\<close>, a space, U+8D77.\<close>

definition price_example :: ustr where
  "price_example = [165] @ asc ''1,230 '' @ [36215]"

definition price_env :: "unit playwright" where
  "price_env = idle_env\<lparr> text_content := (\<lambda>l w. Inr (Some price_example)) \<rparr>"

text \<open>A body text with two flight numbers, one time and two runs of digits that the price
  pattern takes.\<close>

definition body_example :: ustr where
  "body_example = asc ''HU7181 08:30 CA1352''"

definition body_env :: "unit playwright" where
  "body_env = idle_env\<lparr> inner_text := (\<lambda>l w. Inr body_example) \<rparr>"

text \<open>A page with two cards under the last card selector. The first has an airline text of two
  tokens, two times and one airport; the second has an airline text of one token. Neither has
  a price, an aircraft or a rate text (\<open>text_content\<close> returns \<open>None\<close>).\<close>

definition card0 :: locator where
  "card0 = Nth (Page_locator (asc ''.flight-box'')) 0"

definition card1 :: locator where
  "card1 = Nth (Page_locator (asc ''.flight-box'')) 1"

definition cards_env :: "unit playwright" where
  "cards_env = idle_env\<lparr>
     loc_count := (\<lambda>l w. if l = Page_locator (asc ''.flight-box'') then Inr 2 else Inr 0),
     text_content := (\<lambda>l w. if l = First (Sub card0 airline_selector) then Inr (Some (asc ''CA CA1352''))
                             else if l = First (Sub card1 airline_selector) then Inr (Some (asc ''Solo''))
                             else Inr None),
     all_text_contents := (\<lambda>l w. if l = Sub card0 time_selector then Inr [asc ''08:30 '', asc ''10:45'']
                                  else if l = Sub card0 airport_selector then Inr [asc ''HAK'']
                                  else Inr []) \<rparr>"

definition record0 :: flight_info where
  "record0 = empty_info\<lparr>airline := Some (asc ''CA''), flight_no := Some (asc ''CA1352''),
                        aircraft := Some [], depart_time := Some (asc ''08:30''),
                        arrive_time := Some (asc ''10:45''), on_time_rate := Some []\<rparr>"

text \<open>A page with one card: its airline text is read, the read of its price text raises
  Playwright's TimeoutError (as \<open>text_content\<close> does when no element matches in time).\<close>

definition dropped_env :: "unit playwright" where
  "dropped_env = idle_env\<lparr>
     loc_count := (\<lambda>l w. if l = Page_locator (asc ''.flight-box'') then Inr 1 else Inr 0),
     text_content := (\<lambda>l w. if l = First (Sub card0 airline_selector) then Inr (Some (asc ''CA CA1352''))
                             else if l = First (Sub card0 price_selector) then Inl TimeoutError
                             else Inr None) \<rparr>"

text \<open>A page (its state is the number of popups it shows) whose popups match the first pattern;
  a click closes one.\<close>

definition popup_env :: "nat playwright" where
  "popup_env = idle_env\<lparr>
     loc_count := (\<lambda>l w. if l = Page_locator (fst (popup_handlers ! 0)) then Inr w else Inr 0),
     is_visible := (\<lambda>l n w. Inr True),
     click := (\<lambda>l n w. (None, w - 1)) \<rparr>"

text \<open>Only the third submit candidate is visible.\<close>

definition third_button_env :: "unit playwright" where
  "third_button_env = idle_env\<lparr> is_visible := (\<lambda>l n w. Inr (l = First (Page_locator (asc ''.search-btn'')))) \<rparr>"

text \<open>Every submit candidate is visible; the click on the first raises.\<close>

definition retry_env :: "unit playwright" where
  "retry_env = idle_env\<lparr> is_visible := (\<lambda>l n w. Inr True),
      click := (\<lambda>l n w. if l = First (Page_locator (search_selectors ! 0)) then (Some TimeoutError, w)
                         else (None, w)) \<rparr>"

text \<open>The browser does not start; every navigation times out.\<close>

definition launch_fail_env :: "unit playwright" where
  "launch_fail_env = idle_env\<lparr> launch := (\<lambda>w. (Some Error, w)) \<rparr>"

definition nav_timeout_env :: "unit playwright" where
  "nav_timeout_env = idle_env\<lparr> goto := (\<lambda>u w. (Some TimeoutError, w)) \<rparr>"

definition today_example :: date where
  "today_example = \<lparr> year = 2026, month = 11, day = 5 \<rparr>"

section \<open>Properties of the regular expression matcher\<close>

lemma rmatch_Rep_elem:
  assumes "(b', s', c') \<in> set (rmatch (Rep lo hi p) (b, s, c))"
  shows "\<exists>k. lo \<le> k \<and> k \<le> length (takeWhile p s) \<and> (case hi of None \<Rightarrow> True | Some h \<Rightarrow> k \<le> h) \<and>
         b' = rev (take k s) @ b \<and> s' = drop k s \<and> c' = c"
proof -
  define m where "m = (case hi of None \<Rightarrow> length (takeWhile p s) | Some h \<Rightarrow> min (length (takeWhile p s)) h)"
  from assms have "(b', s', c') \<in> (\<lambda>k. (rev (take k s) @ b, drop k s, c)) ` {lo..<Suc m}"
    by (simp add: Let_def m_def del: upt_Suc)
  then obtain k where k: "lo \<le> k" "k \<le> m" "b' = rev (take k s) @ b" "s' = drop k s" "c' = c"
    by auto
  from k(2) have "k \<le> length (takeWhile p s) \<and> (case hi of None \<Rightarrow> True | Some h \<Rightarrow> k \<le> h)"
    by (cases hi) (simp_all add: m_def)
  with k show ?thesis by blast
qed

lemma rmatch_Seq_elem:
  "m \<in> set (rmatch (Seq r1 r2) st) \<Longrightarrow> \<exists>st1 \<in> set (rmatch r1 st). m \<in> set (rmatch r2 st1)"
  by simp

lemma lang_SeqI: "lang r1 u \<Longrightarrow> lang r2 v \<Longrightarrow> lang (Seq r1 r2) (u @ v)"
  by (auto simp: list_ex_iff intro!: bexI [of _ "length u"])

text \<open>Every end state of the matcher is reached by consuming a word of the pattern's
  language.\<close>

lemma rmatch_sound:
  "(b', s', c') \<in> set (rmatch r (b, s, c)) \<Longrightarrow> \<exists>w. s = w @ s' \<and> b' = rev w @ b \<and> lang r w"
proof (induction r arbitrary: b s c b' s' c')
  case (Lit a)
  then show ?case by (auto split: list.splits if_splits)
next
  case (Bnd p)
  then show ?case by (auto split: if_splits)
next
  case Eps
  then show ?case by auto
next
  case (Rep lo hi p)
  from rmatch_Rep_elem [OF Rep.prems] obtain k where k: "lo \<le> k" "k \<le> length (takeWhile p s)"
      "case hi of None \<Rightarrow> True | Some h \<Rightarrow> k \<le> h"
      "b' = rev (take k s) @ b" "s' = drop k s"
    by blast
  have le: "k \<le> length s" using k(2) length_takeWhile_le [of p s] by simp
  have "take k s = take k (takeWhile p s)"
    using k(2) by (metis takeWhile_eq_take min.absorb1 take_take)
  then have "list_all p (take k s)"
    by (metis list_all_iff set_takeWhileD in_set_takeD)
  with k le show ?case
    by (intro exI [of _ "take k s"]) (auto split: option.splits)
next
  case (Seq r1 r2)
  from Seq.prems obtain b1 s1 c1 where
    m1: "(b1, s1, c1) \<in> set (rmatch r1 (b, s, c))" and m2: "(b', s', c') \<in> set (rmatch r2 (b1, s1, c1))"
    by auto
  from Seq.IH(1) [OF m1] obtain u where u: "s = u @ s1" "b1 = rev u @ b" "lang r1 u" by blast
  from Seq.IH(2) [OF m2] obtain v where v: "s1 = v @ s'" "b' = rev v @ b1" "lang r2 v" by blast
  from u v lang_SeqI [of r1 u r2 v] show ?case
    by (intro exI [of _ "u @ v"]) simp
next
  case (Alt r1 r2)
  from Alt.prems consider "(b', s', c') \<in> set (rmatch r1 (b, s, c))" | "(b', s', c') \<in> set (rmatch r2 (b, s, c))"
    by auto
  then show ?case
  proof cases
    case 1
    from Alt.IH(1) [OF 1] show ?thesis by auto
  next
    case 2
    from Alt.IH(2) [OF 2] show ?thesis by auto
  qed
next
  case (Grp r)
  from Grp.prems obtain c0 where "(b', s', c0) \<in> set (rmatch r (b, s, c))" by auto
  from Grp.IH [OF this] show ?case by auto
qed

lemma rmatch_Grp_capture:
  assumes "(b', s', c') \<in> set (rmatch (Grp r) (b, s, c))"
  shows "\<exists>w. c' = Some w \<and> s = w @ s' \<and> lang r w"
proof -
  from assms obtain c0 where m: "(b', s', c0) \<in> set (rmatch r (b, s, c))"
    and c': "c' = Some (take (length s - length s') s)"
    by auto
  from rmatch_sound [OF m] obtain w where "s = w @ s'" "lang r w" by blast
  with c' show ?thesis by auto
qed

lemma rmatch_Bnd_same: "m \<in> set (rmatch (Bnd p) st) \<Longrightarrow> m = st"
  by (cases st) (auto split: if_splits)

text \<open>What the flight-number pattern captures is a word of \<open>[A-Z]{2}\d{3,4}\<close>.\<close>

lemma flight_pattern_capture:
  assumes "m \<in> set (rmatch (flight_pattern P) (b, s, None))"
  shows "lang (flight_core P) (group1 m)"
proof -
  from assms have "m \<in> set (rmatch (Seq (Bnd (isword P)) (Seq (Grp (flight_core P)) (Bnd (isword P)))) (b, s, None))"
    by (simp only: flight_pattern_def)
  then obtain st1 where
    a: "st1 \<in> set (rmatch (Bnd (isword P)) (b, s, None))" and
    bc: "m \<in> set (rmatch (Seq (Grp (flight_core P)) (Bnd (isword P))) st1)"
    by (blast dest: rmatch_Seq_elem)
  from bc obtain st2 where
    b: "st2 \<in> set (rmatch (Grp (flight_core P)) st1)" and
    c: "m \<in> set (rmatch (Bnd (isword P)) st2)"
    by (blast dest: rmatch_Seq_elem)
  from a have st1: "st1 = (b, s, None)" by (rule rmatch_Bnd_same)
  from c have m: "m = st2" by (rule rmatch_Bnd_same)
  obtain b2 s2 c2 where st2: "st2 = (b2, s2, c2)" by (cases st2)
  from rmatch_Grp_capture [of b2 s2 c2 "flight_core P" b s None] b st1 st2
  obtain w where "c2 = Some w" "lang (flight_core P) w" by blast
  with m st2 show ?thesis by (simp add: group1_def)
qed

text \<open>A property of the group of every match is a property of every string that
  \<open>findall\<close> returns.\<close>

lemma findall_from_all:
  "x \<in> set (findall_from r b s) \<Longrightarrow> (\<And>b s m. m \<in> set (rmatch r (b, s, None)) \<Longrightarrow> Q (group1 m)) \<Longrightarrow> Q x"
proof (induction r b s rule: findall_from.induct)
  case (1 r b s)
  note Q = "1.prems"(2)
  from "1.prems"(1) have mem: "x \<in> set (case rmatch r (b, s, None) of
        [] \<Rightarrow> (case s of [] \<Rightarrow> [] | x # xs \<Rightarrow> findall_from r (x # b) xs)
      | m # _ \<Rightarrow>
          group1 m #
          (if length (fst (snd m)) < length s then findall_from r (fst m) (fst (snd m))
           else (case s of [] \<Rightarrow> [] | x # xs \<Rightarrow> findall_from r (x # b) xs)))"
    by (subst (asm) findall_from.simps) simp
  show ?case
  proof (cases "rmatch r (b, s, None)")
    case Nil
    with mem "1.IH"(1) Q show ?thesis
      by (cases s) auto
  next
    case (Cons m ms)
    then have "m \<in> set (rmatch r (b, s, None))" by simp
    then have Qm: "Q (group1 m)" by (rule Q)
    show ?thesis
    proof (cases "length (fst (snd m)) < length s")
      case True
      with Cons mem "1.IH"(2) [OF Cons True] Q Qm show ?thesis
        by auto
    next
      case False
      with Cons mem "1.IH"(3) [OF Cons False] Q Qm show ?thesis
        by (cases s) auto
    qed
  qed
qed

lemma findall_flight_lang:
  "x \<in> set (re_findall (flight_pattern P) txt) \<Longrightarrow> lang (flight_core P) x"
  unfolding re_findall_def
  by (erule findall_from_all) (rule flight_pattern_capture)

lemma flight_core_shape:
  "lang (flight_core P) w \<Longrightarrow> w \<noteq> [] \<and> (length w = 5 \<or> length w = 6)"
  by (auto simp: flight_core_def list_ex_iff)

section \<open>Price parsing\<close>

lemma rev_upt_Suc: "lo \<le> m \<Longrightarrow> rev [lo..<Suc m] = m # rev [lo..<m]"
  by simp

lemma rmatch_digits_none:
  "\<not> isdecimal P x \<Longrightarrow> rmatch (digits_pattern P) (b, x # xs, None) = []"
  by (simp add: digits_pattern_def)

lemma rmatch_digits_nil: "rmatch (digits_pattern P) (b, [], None) = []"
  by (simp add: digits_pattern_def)

lemma rmatch_digits_some:
  assumes "isdecimal P x"
  shows "\<exists>b' ms. rmatch (digits_pattern P) (b, x # xs, None) =
           (b', dropWhile (isdecimal P) (x # xs), Some (takeWhile (isdecimal P) (x # xs))) # ms"
proof -
  let ?s = "x # xs"
  let ?n = "length (takeWhile (isdecimal P) ?s)"
  have n: "1 \<le> ?n" using assms by simp
  have le: "?n \<le> length ?s" by (rule length_takeWhile_le)
  have "rev [1..<Suc ?n] = ?n # rev [1..<?n]" using n by (rule rev_upt_Suc)
  moreover have "take ?n ?s = takeWhile (isdecimal P) ?s" by (rule takeWhile_eq_take [symmetric])
  moreover have "drop ?n ?s = dropWhile (isdecimal P) ?s" by (rule dropWhile_eq_drop [symmetric])
  moreover have "length ?s - length (dropWhile (isdecimal P) ?s) = ?n"
    using le by (simp add: dropWhile_eq_drop)
  ultimately show ?thesis
    by (simp only: digits_pattern_def rmatch.simps Let_def option.case list.map split_conv) blast
qed

text \<open>\<open>re.search(r"(\d+)", s)\<close> finds the first run of digits of \<open>s\<close>, if \<open>s\<close> has a
  digit.\<close>

lemma search_digits:
  "(case search_from (digits_pattern P) b s of Some m \<Rightarrow> group1 m | None \<Rightarrow> []) =
     takeWhile (isdecimal P) (dropWhile (\<lambda>c. \<not> isdecimal P c) s)"
proof (induction s arbitrary: b)
  case Nil
  show ?case by (simp add: rmatch_digits_nil)
next
  case (Cons x xs)
  show ?case
  proof (cases "isdecimal P x")
    case True
    from rmatch_digits_some [OF True, of b xs] obtain b' ms where
      "rmatch (digits_pattern P) (b, x # xs, None) =
           (b', dropWhile (isdecimal P) (x # xs), Some (takeWhile (isdecimal P) (x # xs))) # ms" by blast
    then show ?thesis using True
      by (simp add: group1_def)
  next
    case False
    then show ?thesis using Cons.IH [of "x # b"]
      by (simp add: rmatch_digits_none)
  qed
qed

lemma py_replace_filter: "py_replace c [] s = filter (\<lambda>x. x \<noteq> c) s"
  unfolding py_replace_def by (induction s) auto

lemma parse_price_eq:
  "parse_price P s = takeWhile (isdecimal P) (dropWhile (\<lambda>c. \<not> isdecimal P c) (filter (\<lambda>c. c \<noteq> 44) s))"
  using search_digits [of P "[]" "filter (\<lambda>c. c \<noteq> 44) s"]
  by (simp add: parse_price_def re_search_def py_replace_filter)

text \<open>
  C5. The price string is what is left of the price text after every comma is removed and
  the first run of digits is taken (the empty string when there is no digit), and it is what
  a card with a non-empty price text gets as its price; with the decimal digits \<open>0\<close> to \<open>3\<close>
  classified as digits and the yen sign, the space and U+8D77 not, the text of the
  specification's example gives \<open>1230\<close>.
\<close>

theorem price_parsing:
  assumes "text_content env (First (Sub elem price_selector)) w = Inr (Some s)" and "s \<noteq> []"
  shows "parse_price P t = takeWhile (isdecimal P) (dropWhile (\<lambda>c. \<not> isdecimal P c) (filter (\<lambda>c. c \<noteq> 44) t)) \<and>
         step_price P env w elem fi = Inr (fi\<lparr>price := Some (parse_price P s)\<rparr>) \<and>
         (s = price_example \<and> isdecimal P 48 \<and> isdecimal P 49 \<and> isdecimal P 50 \<and> isdecimal P 51 \<and>
          \<not> isdecimal P 165 \<and> \<not> isdecimal P 32 \<and> \<not> isdecimal P 36215
            \<longrightarrow> step_price P env w elem fi = Inr (fi\<lparr>price := Some (asc ''1230'')\<rparr>))"
proof -
  have a: "step_price P env w elem fi = Inr (fi\<lparr>price := Some (parse_price P s)\<rparr>)"
    using assms by (simp add: step_price_def bindE_def truthy_def)
  have b: "parse_price P price_example = asc ''1230''"
    if "isdecimal P 48" "isdecimal P 49" "isdecimal P 50" "isdecimal P 51"
       "\<not> isdecimal P 165" "\<not> isdecimal P 32" "\<not> isdecimal P 36215"
    using that by (simp add: parse_price_eq price_example_def asc_def)
  from a b show ?thesis by (simp add: parse_price_eq)
qed

theorem price_parsing_witness:
  "step_price ascii_rt price_env () card0 empty_info = Inr (empty_info\<lparr>price := Some (asc ''1230'')\<rparr>)"
proof -
  have h1: "text_content price_env (First (Sub card0 price_selector)) () = Inr (Some price_example)"
    by (simp add: price_env_def idle_env_def)
  have h2: "price_example \<noteq> []" by (simp add: price_example_def)
  have d: "isdecimal ascii_rt 48 \<and> isdecimal ascii_rt 49 \<and> isdecimal ascii_rt 50 \<and> isdecimal ascii_rt 51 \<and>
          \<not> isdecimal ascii_rt 165 \<and> \<not> isdecimal ascii_rt 32 \<and> \<not> isdecimal ascii_rt 36215"
    by (simp add: ascii_rt_def)
  from price_parsing [OF h1 h2, where P = ascii_rt and fi = empty_info and t = "[]"] d
  show ?thesis by blast
qed

section \<open>Fallback extraction\<close>

lemma generic_record_Inr: "generic_record tms prs i fno = Inr (paired_record tms prs i fno)"
  by (simp add: generic_record_def bindE_def py_index_def paired_record_def)

lemma generic_loop_eq:
  "generic_loop tms prs xs acc = (acc @ map (\<lambda>(i, fno). paired_record tms prs i fno) xs, None)"
  by (induction xs arbitrary: acc) (auto simp: generic_record_Inr)

lemma generic_from_text_eq:
  "generic_from_text P body =
     (map (\<lambda>(i, fno). paired_record (re_findall (time_pattern P) body) (re_findall (price_pattern P) body) i fno)
          (enumerate_from0 (take 10 (set_list P (re_findall (flight_pattern P) body)))), None)"
  by (simp add: generic_from_text_def Let_def generic_loop_eq)

lemma extract_generic_text:
  "inner_text env (asc ''body'') (world s) = Inr body \<Longrightarrow>
     extract_generic_flight_info P env s = (Inr (fst (generic_from_text P body)), s)"
  by (simp add: extract_generic_flight_info_def generic_from_text_eq)

lemma extract_generic_cases:
  assumes "fst (extract_generic_flight_info P env s) = Inr flights"
  shows "flights = [] \<or>
         (\<exists>body. inner_text env (asc ''body'') (world s) = Inr body \<and> flights = fst (generic_from_text P body))"
proof (cases "inner_text env (asc ''body'') (world s)")
  case (Inl e)
  with assms show ?thesis
    by (auto simp: extract_generic_flight_info_def bind_def emit_def ret_def split: if_splits)
next
  case (Inr body)
  with assms extract_generic_text [OF Inr, of P] show ?thesis by auto
qed

lemma length_generic_from_text:
  "length (fst (generic_from_text P body)) = min 10 (length (set_list P (re_findall (flight_pattern P) body)))"
  by (simp add: generic_from_text_eq enumerate_from0_def min.commute)

lemma nth_generic_from_text:
  assumes "i < 10" and "i < length (set_list P (re_findall (flight_pattern P) body))"
  shows "fst (generic_from_text P body) ! i =
           paired_record (re_findall (time_pattern P) body) (re_findall (price_pattern P) body) i
             (set_list P (re_findall (flight_pattern P) body) ! i)"
  using assms by (simp add: generic_from_text_eq enumerate_from0_def)

lemma set_generic_from_text:
  assumes "fi \<in> set (fst (generic_from_text P body))"
  shows "\<exists>i fno. fno \<in> set (set_list P (re_findall (flight_pattern P) body)) \<and>
           fi = paired_record (re_findall (time_pattern P) body) (re_findall (price_pattern P) body) i fno"
proof -
  from assms obtain i fno where
    "(i, fno) \<in> set (enumerate_from0 (take 10 (set_list P (re_findall (flight_pattern P) body))))"
    "fi = paired_record (re_findall (time_pattern P) body) (re_findall (price_pattern P) body) i fno"
    by (auto simp: generic_from_text_eq)
  moreover from this(1) have "fno \<in> set (set_list P (re_findall (flight_pattern P) body))"
    unfolding enumerate_from0_def by (auto dest: set_zip_rightD in_set_takeD)
  ultimately show ?thesis by blast
qed

text \<open>The concrete body text and what the three patterns find in it.\<close>

lemma set_list_ok_ascii: "set_list_ok ascii_rt"
  by (simp add: set_list_ok_def ascii_rt_def)

lemma body_example_code:
  "body_example = [72, 85, 55, 49, 56, 49, 32, 48, 56, 58, 51, 48, 32, 67, 65, 49, 51, 53, 50]"
  by (simp add: body_example_def asc_def)

lemma body_flights: "re_findall (flight_pattern ascii_rt) body_example = [asc ''HU7181'', asc ''CA1352'']"
  unfolding body_example_code
  by (simp add: re_findall_def findall_from.simps flight_pattern_def flight_core_def ascii_rt_def
        isword_def upper_def at_word_def group1_def Let_def asc_def)

lemma body_times: "re_findall (time_pattern ascii_rt) body_example = [asc ''08:30'']"
  unfolding body_example_code
  by (simp add: re_findall_def findall_from.simps time_pattern_def ascii_rt_def
        isword_def at_word_def group1_def Let_def asc_def)

lemma body_prices: "re_findall (price_pattern ascii_rt) body_example = [asc ''7181'', asc ''1352'']"
  unfolding body_example_code
  by (simp add: re_findall_def findall_from.simps price_pattern_def ascii_rt_def
        group1_def Let_def asc_def)

lemma body_inner_text: "inner_text body_env (asc ''body'') (world s0) = Inr body_example"
  by (simp add: body_env_def idle_env_def)

lemma body_set_list:
  "set_list ascii_rt (re_findall (flight_pattern ascii_rt) body_example) = [asc ''HU7181'', asc ''CA1352'']"
  by (simp add: body_flights) (simp add: ascii_rt_def asc_def)

text \<open>
  C3. When the body text is read, fallback extraction returns a list of at most 10 records,
  and of at most as many records as there are distinct strings among the matches of the
  flight-number pattern in the text (given that \<open>list(set(xs))\<close> lists each element of \<open>xs\<close>
  once).
\<close>

theorem fallback_count:
  assumes "set_list_ok P" and "inner_text env (asc ''body'') (world s) = Inr body"
  shows "\<exists>flights. extract_generic_flight_info P env s = (Inr flights, s) \<and> length flights \<le> 10 \<and>
           length flights \<le> card (set (re_findall (flight_pattern P) body))"
proof -
  let ?fns = "re_findall (flight_pattern P) body"
  from assms(1) have "distinct (set_list P ?fns)" "set (set_list P ?fns) = set ?fns"
    by (simp_all add: set_list_ok_def)
  then have "length (set_list P ?fns) = card (set ?fns)"
    by (metis distinct_card)
  then show ?thesis
    using extract_generic_text [OF assms(2), of P] by (simp add: length_generic_from_text)
qed

theorem fallback_count_witness:
  "\<exists>flights. extract_generic_flight_info ascii_rt body_env s0 = (Inr flights, s0) \<and> length flights \<le> 10 \<and>
     length flights \<le> card (set [asc ''HU7181'', asc ''CA1352''])"
  using fallback_count [OF set_list_ok_ascii body_inner_text] by (simp only: body_flights)

text \<open>
  C4. The dictionary built for the \<open>j\<close>-th flight number from any two match lists is built
  without an exception and has the time at position \<open>2j\<close>, the time at position \<open>2j+1\<close> and
  the price at position \<open>j\<close>, each replaced by the empty string when the position is not in
  its list; and when the body text is read, the \<open>i\<close>-th record that fallback extraction
  returns (\<open>i < 10\<close>, \<open>i\<close> less than the number of unique flight numbers) is that dictionary
  for the \<open>i\<close>-th unique flight number and the matches of the time and price patterns.
\<close>

theorem fallback_pairing:
  assumes "inner_text env (asc ''body'') (world s) = Inr body" and "i < 10"
    and "i < length (set_list P (re_findall (flight_pattern P) body))"
  shows "generic_record tms prs j fno =
           Inr (empty_info\<lparr>flight_no := Some fno,
                 depart_time := Some (if j * 2 < length tms then tms ! (j * 2) else []),
                 arrive_time := Some (if j * 2 + 1 < length tms then tms ! (j * 2 + 1) else []),
                 price := Some (if j < length prs then prs ! j else [])\<rparr>) \<and>
         (\<exists>flights. extract_generic_flight_info P env s = (Inr flights, s) \<and> i < length flights \<and>
            flights ! i =
              empty_info\<lparr>flight_no := Some (set_list P (re_findall (flight_pattern P) body) ! i),
                 depart_time := Some (if i * 2 < length (re_findall (time_pattern P) body)
                                      then re_findall (time_pattern P) body ! (i * 2) else []),
                 arrive_time := Some (if i * 2 + 1 < length (re_findall (time_pattern P) body)
                                      then re_findall (time_pattern P) body ! (i * 2 + 1) else []),
                 price := Some (if i < length (re_findall (price_pattern P) body)
                                then re_findall (price_pattern P) body ! i else [])\<rparr>)"
proof -
  have a: "generic_record tms prs j fno = Inr (paired_record tms prs j fno)" by (rule generic_record_Inr)
  have b: "i < length (fst (generic_from_text P body))" using assms(2,3) by (simp add: length_generic_from_text)
  from a b extract_generic_text [OF assms(1), of P] nth_generic_from_text [OF assms(2,3)]
  show ?thesis by (simp add: paired_record_def)
qed

theorem fallback_pairing_witness:
  "\<exists>flights. extract_generic_flight_info ascii_rt body_env s0 = (Inr flights, s0) \<and> 1 < length flights \<and>
     flights ! 1 = empty_info\<lparr>flight_no := Some (asc ''CA1352''), depart_time := Some [],
                               arrive_time := Some [], price := Some (asc ''1352'')\<rparr>"
proof -
  have h2: "(1::nat) < 10" by simp
  have h3: "1 < length (set_list ascii_rt (re_findall (flight_pattern ascii_rt) body_example))"
    by (simp add: body_set_list)
  from fallback_pairing [OF body_inner_text h2 h3, where tms = "[]" and prs = "[]" and j = 0 and fno = "[]"]
  show ?thesis by (simp add: body_set_list body_times body_prices)
qed

text \<open>
  C9. Every record that fallback extraction returns has a flight number that is not empty and
  is a word of \<open>[A-Z]{2}\d{3,4}\<close>, and so passes the test of line 322 (given that
  \<open>list(set(xs))\<close> lists elements of \<open>xs\<close> only).
\<close>

theorem fallback_flight_no:
  assumes "set_list_ok P" and "fst (extract_generic_flight_info P env s) = Inr flights" and "fi \<in> set flights"
  shows "\<exists>x. flight_no fi = Some x \<and> x \<noteq> [] \<and> lang (flight_core P) x \<and> has_basic_info fi"
proof -
  from extract_generic_cases [OF assms(2)] assms(3) obtain body where
    "fi \<in> set (fst (generic_from_text P body))" by auto
  from set_generic_from_text [OF this] obtain i fno where
    fno: "fno \<in> set (set_list P (re_findall (flight_pattern P) body))" and
    fi: "fi = paired_record (re_findall (time_pattern P) body) (re_findall (price_pattern P) body) i fno"
    by blast
  from assms(1) fno have "fno \<in> set (re_findall (flight_pattern P) body)" by (simp add: set_list_ok_def)
  then have l: "lang (flight_core P) fno" by (rule findall_flight_lang)
  then have "fno \<noteq> []" using flight_core_shape by blast
  with l fi show ?thesis by (simp add: paired_record_def has_basic_info_def truthy_def)
qed

lemma body_extract:
  "extract_generic_flight_info ascii_rt body_env s0 =
     (Inr [paired_record [asc ''08:30''] [asc ''7181'', asc ''1352''] 0 (asc ''HU7181''),
           paired_record [asc ''08:30''] [asc ''7181'', asc ''1352''] 1 (asc ''CA1352'')], s0)"
  using extract_generic_text [OF body_inner_text, of ascii_rt]
  by (simp add: generic_from_text_eq body_set_list body_times body_prices enumerate_from0_def upt_rec)

theorem fallback_flight_no_witness:
  "\<exists>x. flight_no (paired_record [asc ''08:30''] [asc ''7181'', asc ''1352''] 0 (asc ''HU7181'')) = Some x \<and>
       x \<noteq> [] \<and> lang (flight_core ascii_rt) x \<and>
       has_basic_info (paired_record [asc ''08:30''] [asc ''7181'', asc ''1352''] 0 (asc ''HU7181''))"
proof -
  have h2: "fst (extract_generic_flight_info ascii_rt body_env s0) =
              Inr [paired_record [asc ''08:30''] [asc ''7181'', asc ''1352''] 0 (asc ''HU7181''),
                   paired_record [asc ''08:30''] [asc ''7181'', asc ''1352''] 1 (asc ''CA1352'')]"
    by (simp add: body_extract)
  show ?thesis
    by (rule fallback_flight_no [OF set_list_ok_ascii h2]) simp
qed

section \<open>Structured extraction\<close>

lemma paired_empty: "paired empty_info"
  by (simp add: paired_def empty_info_def)

lemma step_airline_paired: "step_airline P env w elem fi = Inr fi' \<Longrightarrow> paired fi \<Longrightarrow> paired fi'"
  by (auto simp: step_airline_def bindE_def paired_def Let_def py_index_def split: sum.splits if_splits)

lemma step_times_paired: "step_times P env w elem fi = Inr fi' \<Longrightarrow> paired fi \<Longrightarrow> paired fi'"
  by (auto simp: step_times_def bindE_def paired_def py_index_def split: sum.splits if_splits)

lemma step_airports_paired: "step_airports P env w elem fi = Inr fi' \<Longrightarrow> paired fi \<Longrightarrow> paired fi'"
  by (auto simp: step_airports_def bindE_def paired_def py_index_def split: sum.splits if_splits)

lemma step_price_paired: "step_price P env w elem fi = Inr fi' \<Longrightarrow> paired fi \<Longrightarrow> paired fi'"
  by (auto simp: step_price_def bindE_def paired_def split: sum.splits if_splits)

lemma step_craft_paired: "step_craft P env w elem fi = Inr fi' \<Longrightarrow> paired fi \<Longrightarrow> paired fi'"
  by (auto simp: step_craft_def bindE_def paired_def split: sum.splits if_splits)

lemma step_rate_paired: "step_rate P env w elem fi = Inr fi' \<Longrightarrow> paired fi \<Longrightarrow> paired fi'"
  by (auto simp: step_rate_def bindE_def paired_def split: sum.splits if_splits)

lemma run_steps_paired:
  assumes "\<And>step fi fi'. step \<in> set steps \<Longrightarrow> step fi = Inr fi' \<Longrightarrow> paired fi \<Longrightarrow> paired fi'"
  shows "paired fi \<Longrightarrow> paired (fst (run_steps steps fi))"
  using assms
proof (induction steps arbitrary: fi)
  case Nil
  then show ?case by simp
next
  case (Cons step steps)
  show ?case
  proof (cases "step fi")
    case (Inl e)
    with Cons.prems(1) show ?thesis by simp
  next
    case (Inr fi')
    from Cons.prems(2) [of step fi fi'] Inr Cons.prems(1) have "paired fi'" by simp
    have "paired (fst (run_steps steps fi'))"
    proof (rule Cons.IH [OF \<open>paired fi'\<close>])
      fix st a a'
      assume "st \<in> set steps" "st a = Inr a'" "paired a"
      then show "paired a'" using Cons.prems(2) [of st a a'] by simp
    qed
    with Inr show ?thesis by simp
  qed
qed

lemma card_attempts_paired: "paired (fst (card_attempts P env w elem))"
  unfolding card_attempts_def
  by (rule run_steps_paired [OF _ paired_empty])
     (auto dest: step_airline_paired step_times_paired step_airports_paired step_price_paired
                 step_craft_paired step_rate_paired)

lemma paired_record_paired: "paired (paired_record tms prs i fno)"
  by (simp add: paired_def paired_record_def empty_info_def)

text \<open>The loop returns the dictionaries of the kept cards, in the order of the cards.\<close>

lemma structured_loop_eq:
  "structured_loop P env w els acc = Inr flights \<Longrightarrow>
     flights = acc @ map (\<lambda>elem. fst (card_attempts P env w elem)) (filter (kept P env w) els)"
proof (induction els arbitrary: acc)
  case Nil
  then show ?case by simp
next
  case (Cons elem els)
  obtain fi r where ca: "card_attempts P env w elem = (fi, r)" by (cases "card_attempts P env w elem")
  show ?case
  proof (cases r)
    case None
    with ca Cons.prems have "structured_loop P env w els (if has_basic_info fi then acc @ [fi] else acc) = Inr flights"
      by simp
    from Cons.IH [OF this] ca None show ?thesis by (simp add: kept_def)
  next
    case (Some e)
    with ca Cons.prems have "structured_loop P env w els acc = Inr flights"
      by (simp split: if_splits)
    from Cons.IH [OF this] ca Some show ?thesis by (simp add: kept_def)
  qed
qed

lemma structured_records_eq:
  "structured_records P env w els = Inr flights \<Longrightarrow>
     flights = map (\<lambda>elem. fst (card_attempts P env w elem)) (filter (kept P env w) (take 20 els))"
  unfolding structured_records_def by (drule structured_loop_eq) simp

lemma structured_records_mem:
  assumes "structured_records P env w els = Inr flights"
  shows "fi \<in> set flights \<longleftrightarrow>
           (\<exists>elem \<in> set (take 20 els). card_attempts P env w elem = (fi, None) \<and> has_basic_info fi)"
  unfolding structured_records_eq [OF assms]
  by (auto simp: kept_def prod_eq_iff)

lemma find_flight_elements_world:
  "find_flight_elements env sels s = (r, s') \<Longrightarrow> world s' = world s"
  by (induction sels) (auto simp: ret_def bind_def emit_def split: sum.splits if_splits)

text \<open>What \<open>extract_flight_info\<close> returns is what the loop over the cards built, or what
  fallback extraction returns.\<close>

lemma extract_flight_info_cases:
  assumes "fst (extract_flight_info P env s) = Inr flights"
  shows "(\<exists>els. structured_records P env (world s) els = Inr flights) \<or>
         (\<exists>s1. world s1 = world s \<and> fst (extract_generic_flight_info P env s1) = Inr flights)"
proof -
  from assms obtain c where c: "page_content env (world s) = Inr c"
    by (cases "page_content env (world s)") (auto simp: extract_flight_info_def bind_def query_def)
  obtain r s1 where f: "find_flight_elements env card_selectors s = (r, s1)"
    by (cases "find_flight_elements env card_selectors s")
  then have w1: "world s1 = world s" by (rule find_flight_elements_world)
  from assms c f obtain els where r: "r = Inr els"
    by (cases r) (auto simp: extract_flight_info_def bind_def query_def)
  from assms c f r w1 obtain fl where fl: "structured_records P env (world s) els = Inr fl"
    by (cases "structured_records P env (world s) els") (auto simp: extract_flight_info_def bind_def query_def)
  show ?thesis
  proof (cases "fl = []")
    case True
    with assms c f r w1 fl
    have "fst (extract_generic_flight_info P env (s1\<lparr>events := events s1 @ [Print M_try_generic]\<rparr>)) = Inr flights"
      by (simp add: extract_flight_info_def bind_def query_def emit_def)
    with w1 show ?thesis by (intro disjI2 exI [of _ "s1\<lparr>events := events s1 @ [Print M_try_generic]\<rparr>"]) simp
  next
    case False
    with assms c f r w1 fl have "flights = fl"
      by (simp add: extract_flight_info_def bind_def query_def ret_def)
    with fl show ?thesis by blast
  qed
qed

lemma extract_flight_info_structured:
  assumes "page_content env (world s) = Inr c"
    and "find_flight_elements env card_selectors s = (Inr els, s1)"
    and "structured_records P env (world s) els = Inr flights" and "flights \<noteq> []"
  shows "extract_flight_info P env s = (Inr flights, s1)"
  using assms find_flight_elements_world [OF assms(2)]
  by (simp add: extract_flight_info_def bind_def query_def ret_def)

text \<open>The concrete pages.\<close>

lemmas sel_defs = airline_selector_def time_selector_def airport_selector_def price_selector_def
  craft_selector_def rate_selector_def

lemmas step_defs = step_airline_def step_times_def step_airports_def step_price_def step_craft_def
  step_rate_def bindE_def truthy_def py_index_def py_split_def py_strip_def

lemma cards_card0: "card_attempts ascii_rt cards_env () card0 = (record0, None)"
  by (simp add: card_attempts_def step_defs sel_defs cards_env_def idle_env_def card0_def card1_def
        record0_def empty_info_def ascii_rt_def asc_def Let_def)

lemma cards_card1: "card_attempts ascii_rt cards_env () card1 =
   (empty_info\<lparr>airline := Some (asc ''Solo''), flight_no := Some [], aircraft := Some [],
                on_time_rate := Some []\<rparr>, None)"
  by (simp add: card_attempts_def step_defs sel_defs cards_env_def idle_env_def card0_def card1_def
        empty_info_def ascii_rt_def asc_def Let_def)

lemma cards_found: "find_flight_elements cards_env card_selectors s0 =
    (Inr [card0, card1], s0\<lparr>events := [Print (M_using_selector (asc ''.flight-box'') 2)]\<rparr>)"
  by (simp add: card_selectors_def loc_all_def cards_env_def idle_env_def card0_def card1_def s0_def
       bind_def emit_def ret_def asc_def upt_rec)

lemma cards_structured: "structured_records ascii_rt cards_env () [card0, card1] = Inr [record0]"
  by (simp add: structured_records_def cards_card0 cards_card1 has_basic_info_def truthy_def
        record0_def empty_info_def asc_def)

lemma cards_extract:
  "extract_flight_info ascii_rt cards_env s0 =
     (Inr [record0], s0\<lparr>events := [Print (M_using_selector (asc ''.flight-box'') 2)]\<rparr>)"
proof -
  have c: "page_content cards_env (world s0) = Inr []" by (simp add: cards_env_def idle_env_def)
  have w: "world s0 = ()" by simp
  show ?thesis
    by (rule extract_flight_info_structured [OF c cards_found]) (simp_all add: cards_structured)
qed

lemma dropped_card0:
  "card_attempts ascii_rt dropped_env () card0 =
     (empty_info\<lparr>airline := Some (asc ''CA''), flight_no := Some (asc ''CA1352'')\<rparr>, Some TimeoutError)"
  by (simp add: card_attempts_def step_defs sel_defs dropped_env_def idle_env_def card0_def
        empty_info_def ascii_rt_def asc_def Let_def)

lemma dropped_found: "find_flight_elements dropped_env card_selectors s0 =
    (Inr [card0], s0\<lparr>events := [Print (M_using_selector (asc ''.flight-box'') 1)]\<rparr>)"
  by (simp add: card_selectors_def loc_all_def dropped_env_def idle_env_def card0_def s0_def
       bind_def emit_def ret_def asc_def upt_rec)

lemma generic_from_empty_text: "generic_from_text ascii_rt [] = ([], None)"
  by (simp add: generic_from_text_eq re_findall_def findall_from.simps flight_pattern_def
        flight_core_def isword_def at_word_def Let_def enumerate_from0_def)
     (simp add: ascii_rt_def)

lemma dropped_extract: "fst (extract_flight_info ascii_rt dropped_env s0) = Inr []"
proof -
  have c: "page_content dropped_env () = Inr []" by (simp add: dropped_env_def idle_env_def)
  have st: "structured_records ascii_rt dropped_env () [card0] = Inr []"
    by (simp add: structured_records_def dropped_card0)
  have it: "inner_text dropped_env (asc ''body'') () = Inr []" by (simp add: dropped_env_def idle_env_def)
  show ?thesis
    by (simp add: extract_flight_info_def bind_def query_def c dropped_found st emit_def
          extract_generic_flight_info_def it generic_from_empty_text)
qed

text \<open>
  C10. In every record that \<open>extract_flight_info\<close> returns, the departure time is present
  exactly when the arrival time is, and the departure airport is present exactly when the
  arrival airport is.
\<close>

theorem times_airports_in_pairs:
  assumes "fst (extract_flight_info P env s) = Inr flights" and "fi \<in> set flights"
  shows "(depart_time fi = None \<longleftrightarrow> arrive_time fi = None) \<and>
         (depart_airport fi = None \<longleftrightarrow> arrive_airport fi = None)"
proof -
  from extract_flight_info_cases [OF assms(1)] have "paired fi"
  proof
    assume "\<exists>els. structured_records P env (world s) els = Inr flights"
    then obtain els where "structured_records P env (world s) els = Inr flights" by blast
    from structured_records_eq [OF this] assms(2) show ?thesis
      by (auto simp: card_attempts_paired)
  next
    assume "\<exists>s1. world s1 = world s \<and> fst (extract_generic_flight_info P env s1) = Inr flights"
    then obtain s1 where "fst (extract_generic_flight_info P env s1) = Inr flights" by blast
    from extract_generic_cases [OF this] assms(2) obtain body where
      "fi \<in> set (fst (generic_from_text P body))" by auto
    from set_generic_from_text [OF this] show ?thesis
      by (auto simp: paired_record_paired)
  qed
  then show ?thesis by (simp add: paired_def)
qed

theorem times_airports_in_pairs_witness:
  "fst (extract_flight_info ascii_rt cards_env s0) = Inr [record0] \<and>
   depart_time record0 = Some (asc ''08:30'') \<and> arrive_time record0 \<noteq> None \<and>
   depart_airport record0 = None \<and> arrive_airport record0 = None"
proof -
  have h1: "fst (extract_flight_info ascii_rt cards_env s0) = Inr [record0]"
    by (simp add: cards_extract)
  have h2: "record0 \<in> set [record0]" by simp
  have d: "depart_time record0 = Some (asc ''08:30'')" "depart_airport record0 = None"
    by (simp_all add: record0_def empty_info_def)
  from times_airports_in_pairs [OF h1 h2] h1 d show ?thesis by simp
qed

text \<open>
  C1, as the code has it. The output of the structured phase holds a record exactly when it is
  the dictionary of one of the first 20 cards whose six reads all returned without raising
  and whose flight number or price is a non-empty string; and when the structured phase has
  at least one record, its output is what \<open>extract_flight_info\<close> returns.
\<close>

theorem structured_inclusion:
  assumes "structured_records P env w els = Inr flights"
  shows "(fi \<in> set flights \<longleftrightarrow>
            (\<exists>elem \<in> set (take 20 els). card_attempts P env w elem = (fi, None) \<and> has_basic_info fi)) \<and>
         (\<forall>s c s1. w = world s \<and> page_content env (world s) = Inr c \<and>
                   find_flight_elements env card_selectors s = (Inr els, s1) \<and> flights \<noteq> []
                   \<longrightarrow> extract_flight_info P env s = (Inr flights, s1))"
  using structured_records_mem [OF assms, of fi] assms
  by (auto intro: extract_flight_info_structured)

theorem structured_inclusion_witness:
  "structured_records ascii_rt cards_env () [card0, card1] = Inr [record0] \<and>
   card_attempts ascii_rt cards_env () card0 = (record0, None) \<and> has_basic_info record0 \<and>
   snd (card_attempts ascii_rt cards_env () card1) = None \<and>
   \<not> has_basic_info (fst (card_attempts ascii_rt cards_env () card1)) \<and>
   (\<exists>elem \<in> set (take 20 [card0, card1]).
      card_attempts ascii_rt cards_env () elem = (record0, None) \<and> has_basic_info record0) \<and>
   extract_flight_info ascii_rt cards_env s0 =
     (Inr [record0], s0\<lparr>events := [Print (M_using_selector (asc ''.flight-box'') 2)]\<rparr>)"
proof -
  have b0: "has_basic_info record0"
    by (simp add: has_basic_info_def truthy_def record0_def asc_def)
  have b1: "\<not> has_basic_info (fst (card_attempts ascii_rt cards_env () card1))"
    by (simp add: cards_card1 has_basic_info_def truthy_def empty_info_def)
  have c: "page_content cards_env (world s0) = Inr []" by (simp add: cards_env_def idle_env_def)
  have w: "() = world s0" by simp
  from structured_inclusion [OF cards_structured, of record0] c w cards_found
  have "(\<exists>elem \<in> set (take 20 [card0, card1]).
          card_attempts ascii_rt cards_env () elem = (record0, None) \<and> has_basic_info record0)"
    and "extract_flight_info ascii_rt cards_env s0 =
     (Inr [record0], s0\<lparr>events := [Print (M_using_selector (asc ''.flight-box'') 2)]\<rparr>)"
    by auto
  with b0 b1 show ?thesis by (simp add: cards_structured cards_card0 cards_card1)
qed

text \<open>
  C1 as the specification states it fails on the page \<open>dropped_env\<close>: the card selector
  matches one card, the card's flight number is read and is not empty, the read of its price
  raises, and the record is not in the output.
\<close>

theorem structured_inclusion_counterexample:
  "find_flight_elements dropped_env card_selectors s0 =
     (Inr [card0], s0\<lparr>events := [Print (M_using_selector (asc ''.flight-box'') 1)]\<rparr>) \<and>
   card_attempts ascii_rt dropped_env () card0 =
     (empty_info\<lparr>airline := Some (asc ''CA''), flight_no := Some (asc ''CA1352'')\<rparr>, Some TimeoutError) \<and>
   has_basic_info (fst (card_attempts ascii_rt dropped_env () card0)) \<and>
   fst (extract_flight_info ascii_rt dropped_env s0) = Inr []"
  by (simp add: dropped_found dropped_card0 dropped_extract has_basic_info_def truthy_def asc_def)

section \<open>Popup dismissal\<close>

lemma block_no_raise:
  "(\<And>m s. m \<in> set ms \<Longrightarrow> fst (m s) = Inr ()) \<Longrightarrow> fst (block ms s) = Inr ()"
proof (induction ms arbitrary: s)
  case Nil
  show ?case by (simp add: ret_def)
next
  case (Cons m ms)
  from Cons.prems [of m s] obtain s1 where m: "m s = (Inr (), s1)"
    by (cases "m s") auto
  have "fst (block ms s1) = Inr ()" by (rule Cons.IH) (simp add: Cons.prems)
  with m show ?case by (simp add: bind_def)
qed

lemma block_unchanged:
  "(\<And>m. m \<in> set ms \<Longrightarrow> m s = (Inr (), s)) \<Longrightarrow> block ms s = (Inr (), s)"
proof (induction ms)
  case Nil
  show ?case by (simp add: ret_def)
next
  case (Cons m ms)
  have "m s = (Inr (), s)" by (rule Cons.prems) simp
  moreover have "block ms s = (Inr (), s)" by (rule Cons.IH) (simp add: Cons.prems)
  ultimately show ?case by (simp add: bind_def)
qed

lemma handle_pattern_no_raise: "fst (handle_pattern env h s) = Inr ()"
  by (cases h) (simp add: handle_pattern_def try_except_def ret_def split: prod.splits sum.splits)

lemma handle_popups_no_raise: "fst (handle_popups env s) = Inr ()"
  unfolding handle_popups_def by (rule block_no_raise) (auto simp: handle_pattern_no_raise)

lemma handle_pattern_unchanged:
  "loc_count env (Page_locator (fst h)) (world s) = Inr 0 \<Longrightarrow> handle_pattern env h s = (Inr (), s)"
  by (cases h) (simp add: handle_pattern_def try_except_def bind_def query_def loc_all_def ret_def)

lemma handle_popups_unchanged:
  assumes "\<And>h. h \<in> set popup_handlers \<Longrightarrow> loc_count env (Page_locator (fst h)) (world s) = Inr 0"
  shows "handle_popups env s = (Inr (), s)"
  unfolding handle_popups_def
proof (rule block_unchanged)
  fix m
  assume "m \<in> set (map (handle_pattern env) popup_handlers)"
  then obtain h where h: "h \<in> set popup_handlers" and m: "m = handle_pattern env h" by auto
  from assms [OF h] have "handle_pattern env h s = (Inr (), s)" by (rule handle_pattern_unchanged)
  with m show "m s = (Inr (), s)" by simp
qed

lemma popup_first_call:
  "handle_popups popup_env \<lparr>world = 1, events = []\<rparr> =
     (Inr (), \<lparr>world = 0,
               events = [Click (Nth (Page_locator (fst (popup_handlers ! 0))) 0) (Some 2000),
                         Print (M_handled (snd (popup_handlers ! 0))), WaitForTimeout 500]\<rparr>)"
  by (simp add: handle_popups_def handle_pattern_def try_except_def bind_def query_def loc_all_def
        act_def emit_def wait_ms_def ret_def popup_env_def idle_env_def popup_handlers_def asc_def)

text \<open>
  C6. No call of \<open>handle_popups\<close> raises; and in a state whose page has no element that
  matches any of the five patterns, a call returns with the state as it was (no click, no
  message, no wait), and so do two calls in succession.
\<close>

theorem popups_total_idempotent:
  "fst (handle_popups env s) = Inr () \<and>
   ((\<forall>h \<in> set popup_handlers. loc_count env (Page_locator (fst h)) (world s) = Inr 0) \<longrightarrow>
      handle_popups env s = (Inr (), s) \<and>
      bind (handle_popups env) (\<lambda>_. handle_popups env) s = (Inr (), s))"
proof -
  have "handle_popups env s = (Inr (), s)"
    if "\<forall>h \<in> set popup_handlers. loc_count env (Page_locator (fst h)) (world s) = Inr 0"
    using that by (intro handle_popups_unchanged) blast
  then show ?thesis by (simp add: handle_popups_no_raise bind_def)
qed

text \<open>One popup: the first call clicks it away, the second call changes nothing.\<close>

theorem popups_total_idempotent_witness:
  "handle_popups popup_env \<lparr>world = 1, events = []\<rparr> =
     (Inr (), \<lparr>world = 0,
               events = [Click (Nth (Page_locator (fst (popup_handlers ! 0))) 0) (Some 2000),
                         Print (M_handled (snd (popup_handlers ! 0))), WaitForTimeout 500]\<rparr>) \<and>
   handle_popups popup_env
     \<lparr>world = 0,
      events = [Click (Nth (Page_locator (fst (popup_handlers ! 0))) 0) (Some 2000),
                Print (M_handled (snd (popup_handlers ! 0))), WaitForTimeout 500]\<rparr> =
     (Inr (), \<lparr>world = 0,
               events = [Click (Nth (Page_locator (fst (popup_handlers ! 0))) 0) (Some 2000),
                         Print (M_handled (snd (popup_handlers ! 0))), WaitForTimeout 500]\<rparr>)"
proof -
  let ?s1 = "\<lparr>world = 0::nat,
      events = [Click (Nth (Page_locator (fst (popup_handlers ! 0))) 0) (Some 2000),
                Print (M_handled (snd (popup_handlers ! 0))), WaitForTimeout 500]\<rparr>"
  have h: "\<forall>h \<in> set popup_handlers. loc_count popup_env (Page_locator (fst h)) (world ?s1) = Inr 0"
    by (simp add: popup_env_def idle_env_def)
  with popups_total_idempotent [of popup_env ?s1] have "handle_popups popup_env ?s1 = (Inr (), ?s1)"
    by blast
  with popup_first_call show ?thesis by simp
qed

section \<open>Submission\<close>

lemma try_search_buttons_no_raise: "fst (try_search_buttons env sels s) = Inr ()"
  by (induction sels arbitrary: s) (auto simp: ret_def split: prod.splits sum.splits bool.splits)

lemma click_search_button_eq: "click_search_button env s = try_search_buttons env search_selectors s"
  using try_search_buttons_no_raise [of env search_selectors s]
  by (cases "try_search_buttons env search_selectors s") (auto simp: click_search_button_def try_except_def)

lemma try_candidate_not_visible:
  "is_visible env (First (Page_locator sel)) (Some 2000) (world s) \<noteq> Inr True \<Longrightarrow>
     try_search_buttons env (sel # rest) s = try_search_buttons env rest s"
  by (cases "is_visible env (First (Page_locator sel)) (Some 2000) (world s)")
     (auto simp: try_candidate_def Let_def bind_def query_def ret_def)

lemma try_search_buttons_skip:
  "(\<And>x. x \<in> set pre \<Longrightarrow> is_visible env (First (Page_locator x)) (Some 2000) (world s) \<noteq> Inr True) \<Longrightarrow>
     try_search_buttons env (pre @ rest) s = try_search_buttons env rest s"
  by (induction pre) (simp_all add: try_candidate_not_visible del: try_search_buttons.simps)

lemma try_search_buttons_click:
  assumes "is_visible env (First (Page_locator sel)) (Some 2000) (world s) = Inr True"
  shows "try_search_buttons env (sel # rest) s =
     (case click env (First (Page_locator sel)) None (world s) of
        (None, w') \<Rightarrow> (Inr (), s\<lparr>world := w', events := events s @ [Click (First (Page_locator sel)) None]\<rparr>)
      | (Some e, w') \<Rightarrow> try_search_buttons env rest
                          (s\<lparr>world := w', events := events s @ [Click (First (Page_locator sel)) None]\<rparr>))"
  using assms
  by (auto simp: try_candidate_def Let_def bind_def query_def ret_def act_def split: prod.splits option.splits)

text \<open>
  C8, as the code has it. Submission never raises. It goes through the candidates in the order
  of the list and skips those whose visibility check does not return true; when the click on
  the first visible candidate returns, that click is all it does; when that click raises, it
  goes on with the candidates after it, from the state the failed click left; when no candidate
  is visible, it does nothing.
\<close>

theorem submission_behaviour:
  "fst (click_search_button env s) = Inr () \<and>
   (\<forall>pre sel post w'.
      search_selectors = pre @ sel # post \<and>
      (\<forall>x \<in> set pre. is_visible env (First (Page_locator x)) (Some 2000) (world s) \<noteq> Inr True) \<and>
      is_visible env (First (Page_locator sel)) (Some 2000) (world s) = Inr True \<and>
      click env (First (Page_locator sel)) None (world s) = (None, w')
      \<longrightarrow> click_search_button env s =
            (Inr (), s\<lparr>world := w', events := events s @ [Click (First (Page_locator sel)) None]\<rparr>)) \<and>
   (\<forall>pre sel post e w'.
      search_selectors = pre @ sel # post \<and>
      (\<forall>x \<in> set pre. is_visible env (First (Page_locator x)) (Some 2000) (world s) \<noteq> Inr True) \<and>
      is_visible env (First (Page_locator sel)) (Some 2000) (world s) = Inr True \<and>
      click env (First (Page_locator sel)) None (world s) = (Some e, w')
      \<longrightarrow> click_search_button env s =
            try_search_buttons env post
              (s\<lparr>world := w', events := events s @ [Click (First (Page_locator sel)) None]\<rparr>)) \<and>
   ((\<forall>x \<in> set search_selectors. is_visible env (First (Page_locator x)) (Some 2000) (world s) \<noteq> Inr True)
      \<longrightarrow> click_search_button env s = (Inr (), s))"
proof (intro conjI allI impI)
  show "fst (click_search_button env s) = Inr ()"
    by (simp add: click_search_button_eq try_search_buttons_no_raise)
next
  fix pre sel post w'
  assume a: "search_selectors = pre @ sel # post \<and>
      (\<forall>x \<in> set pre. is_visible env (First (Page_locator x)) (Some 2000) (world s) \<noteq> Inr True) \<and>
      is_visible env (First (Page_locator sel)) (Some 2000) (world s) = Inr True \<and>
      click env (First (Page_locator sel)) None (world s) = (None, w')"
  then have "try_search_buttons env (pre @ sel # post) s = try_search_buttons env (sel # post) s"
    by (intro try_search_buttons_skip) blast
  with a show "click_search_button env s =
            (Inr (), s\<lparr>world := w', events := events s @ [Click (First (Page_locator sel)) None]\<rparr>)"
    by (simp add: click_search_button_eq try_search_buttons_click del: try_search_buttons.simps)
next
  fix pre sel post e w'
  assume a: "search_selectors = pre @ sel # post \<and>
      (\<forall>x \<in> set pre. is_visible env (First (Page_locator x)) (Some 2000) (world s) \<noteq> Inr True) \<and>
      is_visible env (First (Page_locator sel)) (Some 2000) (world s) = Inr True \<and>
      click env (First (Page_locator sel)) None (world s) = (Some e, w')"
  then have "try_search_buttons env (pre @ sel # post) s = try_search_buttons env (sel # post) s"
    by (intro try_search_buttons_skip) blast
  with a show "click_search_button env s =
            try_search_buttons env post
              (s\<lparr>world := w', events := events s @ [Click (First (Page_locator sel)) None]\<rparr>)"
    by (simp add: click_search_button_eq try_search_buttons_click del: try_search_buttons.simps)
next
  assume a: "\<forall>x \<in> set search_selectors. is_visible env (First (Page_locator x)) (Some 2000) (world s) \<noteq> Inr True"
  have "try_search_buttons env (search_selectors @ []) s = try_search_buttons env [] s"
    by (rule try_search_buttons_skip) (use a in blast)
  then show "click_search_button env s = (Inr (), s)"
    by (simp add: click_search_button_eq ret_def)
qed

theorem submission_behaviour_witness:
  "click_search_button third_button_env s0 =
     (Inr (), s0\<lparr>events := [Click (First (Page_locator (asc ''.search-btn''))) None]\<rparr>)"
proof -
  have split: "search_selectors = take 2 search_selectors @ asc ''.search-btn'' # drop 3 search_selectors"
    by (simp add: search_selectors_def)
  have pre: "\<forall>x \<in> set (take 2 search_selectors).
               is_visible third_button_env (First (Page_locator x)) (Some 2000) (world s0) \<noteq> Inr True"
    by (simp add: search_selectors_def third_button_env_def idle_env_def asc_def)
  have vis: "is_visible third_button_env (First (Page_locator (asc ''.search-btn''))) (Some 2000) (world s0) = Inr True"
    by (simp add: third_button_env_def idle_env_def)
  have clk: "click third_button_env (First (Page_locator (asc ''.search-btn''))) None (world s0) = (None, ())"
    by (simp add: third_button_env_def idle_env_def)
  from submission_behaviour [of third_button_env s0] split pre vis clk
  have "click_search_button third_button_env s0 =
            (Inr (), s0\<lparr>world := (), events := events s0 @ [Click (First (Page_locator (asc ''.search-btn''))) None]\<rparr>)"
    by blast
  then show ?thesis by (simp add: s0_def)
qed

text \<open>
  C8 as the specification states it fails on the page \<open>retry_env\<close>: the first candidate
  is visible, the click on it raises, and the second candidate is clicked as well.
\<close>

theorem submission_counterexample:
  "is_visible retry_env (First (Page_locator (search_selectors ! 0))) (Some 2000) (world s0) = Inr True \<and>
   click_search_button retry_env s0 =
     (Inr (), s0\<lparr>events := [Click (First (Page_locator (search_selectors ! 0))) None,
                            Click (First (Page_locator (search_selectors ! 1))) None]\<rparr>)"
  by (simp add: click_search_button_def try_except_def try_candidate_def Let_def bind_def query_def
        act_def ret_def retry_env_def idle_env_def s0_def search_selectors_def asc_def)

section \<open>The top-level handler\<close>

lemma error_handler_events:
  "events (snd (error_handler env e s1)) =
     events s1 @ [Print (M_error e), Traceback, Screenshot ''error_screenshot.png''] @
       (case fst (screenshot env ''error_screenshot.png'' (world s1)) of
          None \<Rightarrow> [Print (M_screenshot_saved ''error_screenshot.png''), Print M_hold_60, WaitForTimeout 60000]
        | Some x \<Rightarrow> [])"
  by (auto simp: error_handler_def bind_def emit_def act_def wait_ms_def ret_def Let_def
           split: prod.splits option.splits)

lemma cleanup_events:
  "\<exists>rest. events (snd (cleanup env s)) = events s @ [CloseBrowser] @ rest \<and> (rest = [] \<or> rest = [Print M_done])"
  by (auto simp: cleanup_def bind_def emit_def act_def ret_def split: prod.splits option.splits)

lemma try_finally_events:
  "events (snd (try_finally m fin s)) = events (snd (fin (snd (m s))))"
  by (auto simp: try_finally_def split: prod.splits sum.splits)

lemma guarded_main_caught:
  assumes "main_sequence P env d s = (Inl e, s1)" and "is_Exception e"
  shows "\<exists>rest. events (snd (guarded_main P env d s)) =
           events s1 @ [Print (M_error e), Traceback, Screenshot ''error_screenshot.png''] @
           (case fst (screenshot env ''error_screenshot.png'' (world s1)) of
              None \<Rightarrow> [Print (M_screenshot_saved ''error_screenshot.png''), Print M_hold_60, WaitForTimeout 60000]
            | Some x \<Rightarrow> []) @ [CloseBrowser] @ rest \<and> (rest = [] \<or> rest = [Print M_done])"
proof -
  let ?h = "try_except (main_sequence P env d) is_Exception (error_handler env)"
  have "snd (?h s) = snd (error_handler env e s1)"
    using assms by (simp add: try_except_def)
  then have ev: "events (snd (guarded_main P env d s)) = events (snd (cleanup env (snd (error_handler env e s1))))"
    by (simp add: guarded_main_def try_finally_events)
  from cleanup_events [of env "snd (error_handler env e s1)"] obtain rest where
    "events (snd (cleanup env (snd (error_handler env e s1)))) =
       events (snd (error_handler env e s1)) @ [CloseBrowser] @ rest" "rest = [] \<or> rest = [Print M_done]"
    by blast
  with ev show ?thesis by (simp add: error_handler_events)
qed

lemma with_browser_launch_fails:
  assumes "pw_start env (world s) = (None, w1)" and "launch env w1 = (Some e, w2)"
  shows "events (snd (with_browser P env d s)) = events s @ [Start, Print M_launching, Launch, Stop] \<and>
         fst (with_browser P env d s) \<noteq> Inr ()"
  using assms
  by (auto simp: with_browser_def bind_def act_def emit_def try_finally_def split: prod.splits option.splits sum.splits)

lemma guarded_main_uncaught:
  assumes "main_sequence P env d s = (Inl e, s1)" and "\<not> is_Exception e"
  shows "\<exists>rest. events (snd (guarded_main P env d s)) = events s1 @ [CloseBrowser] @ rest \<and>
           (rest = [] \<or> rest = [Print M_done])"
proof -
  have "snd (try_except (main_sequence P env d) is_Exception (error_handler env) s) = s1"
    using assms by (simp add: try_except_def)
  then have "events (snd (guarded_main P env d s)) = events (snd (cleanup env s1))"
    by (simp add: guarded_main_def try_finally_events)
  with cleanup_events [of env s1] show ?thesis by simp
qed

lemma nav_timeout_main:
  "main_sequence ascii_rt nav_timeout_env ''2026-11-06'' s =
     (Inl TimeoutError, s\<lparr>events := events s @ [Print M_nav_ctrip,
        Goto ''https://flights.ctrip.com/international/search/oneway-sha-bjs?depdate=20261106&cabin=y_s'']\<rparr>)"
  by (simp add: main_sequence_def bind_def emit_def act_def nav_timeout_env_def idle_env_def
        international_url_def py_replace_def Let_def)

lemma dec_small: "n < 10 \<Longrightarrow> dec n = [digit_char n]"
  by (simp add: dec.simps)

lemma dec_step: "10 \<le> n \<Longrightarrow> dec n = dec (n div 10) @ [digit_char (n mod 10)]"
  by (simp add: dec.simps)

lemma tomorrow_example: "add_one_day today_example = Inr \<lparr> year = 2026, month = 11, day = 6 \<rparr>"
  by (simp add: add_one_day_def today_example_def days_in_month_def)

lemma tomorrow_str_example:
  "strftime ascii_rt ''%Y-%m-%d'' \<lparr> year = 2026, month = 11, day = 6 \<rparr> = ''2026-11-06''"
  by (simp add: zpad_def dec_small dec_step digit_char_def)

text \<open>
  C2, as the code has it. An exception of class \<open>Exception\<close> that leaves the main sequence
  (the body of the \<open>try\<close>, entered once the page exists) is handled once: the error is printed,
  the stack trace is printed, the screenshot \<open>error_screenshot.png\<close> is requested and, when
  that call returns, two messages are printed and the run waits 60000 ms; then, whether or not
  the handler came to its end, the browser is closed. An exception that is not an \<open>Exception\<close>
  goes to the cleanup directly. A failure to launch the browser is raised before the \<open>try\<close>
  is entered: nothing handles it, no screenshot is requested and no browser is closed; only the
  driver is stopped.
\<close>

theorem hard_failure_handling:
  "(main_sequence P env d s = (Inl e, s1) \<and> is_Exception e \<longrightarrow>
      (\<exists>rest. events (snd (guarded_main P env d s)) =
         events s1 @ [Print (M_error e), Traceback, Screenshot ''error_screenshot.png''] @
         (case fst (screenshot env ''error_screenshot.png'' (world s1)) of
            None \<Rightarrow> [Print (M_screenshot_saved ''error_screenshot.png''), Print M_hold_60, WaitForTimeout 60000]
          | Some x \<Rightarrow> []) @ [CloseBrowser] @ rest \<and> (rest = [] \<or> rest = [Print M_done]))) \<and>
   (main_sequence P env d s = (Inl e, s1) \<and> \<not> is_Exception e \<longrightarrow>
      (\<exists>rest. events (snd (guarded_main P env d s)) = events s1 @ [CloseBrowser] @ rest \<and>
         (rest = [] \<or> rest = [Print M_done]))) \<and>
   (pw_start env (world s) = (None, w1) \<and> launch env w1 = (Some e, w2) \<longrightarrow>
      events (snd (with_browser P env d s)) = events s @ [Start, Print M_launching, Launch, Stop] \<and>
      fst (with_browser P env d s) \<noteq> Inr ())"
  using guarded_main_caught [of P env d s e s1] guarded_main_uncaught [of P env d s e s1]
    with_browser_launch_fails [of env s w1 e w2 P d]
  by blast

text \<open>A navigation that times out.\<close>

theorem hard_failure_handling_witness:
  "\<exists>rest. events (snd (guarded_main ascii_rt nav_timeout_env ''2026-11-06'' s0)) =
      [Print M_nav_ctrip,
       Goto ''https://flights.ctrip.com/international/search/oneway-sha-bjs?depdate=20261106&cabin=y_s'',
       Print (M_error TimeoutError), Traceback, Screenshot ''error_screenshot.png'',
       Print (M_screenshot_saved ''error_screenshot.png''), Print M_hold_60, WaitForTimeout 60000,
       CloseBrowser] @ rest \<and> (rest = [] \<or> rest = [Print M_done])"
proof -
  let ?s1 = "s0\<lparr>events := events s0 @ [Print M_nav_ctrip,
        Goto ''https://flights.ctrip.com/international/search/oneway-sha-bjs?depdate=20261106&cabin=y_s'']\<rparr>"
  have m: "main_sequence ascii_rt nav_timeout_env ''2026-11-06'' s0 = (Inl TimeoutError, ?s1)"
    by (rule nav_timeout_main)
  have e: "is_Exception TimeoutError" by simp
  have shot: "fst (screenshot nav_timeout_env ''error_screenshot.png'' ()) = None"
    by (simp add: nav_timeout_env_def idle_env_def)
  from hard_failure_handling [of ascii_rt nav_timeout_env "''2026-11-06''" s0 TimeoutError ?s1] m e
  obtain rest where "events (snd (guarded_main ascii_rt nav_timeout_env ''2026-11-06'' s0)) =
         events ?s1 @ [Print (M_error TimeoutError), Traceback, Screenshot ''error_screenshot.png''] @
         (case fst (screenshot nav_timeout_env ''error_screenshot.png'' (world ?s1)) of
            None \<Rightarrow> [Print (M_screenshot_saved ''error_screenshot.png''), Print M_hold_60, WaitForTimeout 60000]
          | Some x \<Rightarrow> []) @ [CloseBrowser] @ rest" "rest = [] \<or> rest = [Print M_done]"
    by blast
  with shot show ?thesis by (simp add: s0_def)
qed

text \<open>
  C2 as the specification states it fails when the browser does not launch: the run
  ends with the launch error after stopping the driver; no error message, no stack trace, no
  screenshot, no wait and no \<open>browser.close()\<close>.
\<close>

theorem hard_failure_counterexample:
  "search_flights ascii_rt launch_fail_env today_example s0 =
     (Inl Error, s0\<lparr>events := [Print (M_date ''2026-11-06''), Start, Print M_launching, Launch, Stop]\<rparr>)"
  by (simp add: search_flights_def tomorrow_example zpad_def dec_small dec_step digit_char_def
        with_browser_def bind_def emit_def act_def try_finally_def launch_fail_env_def idle_env_def s0_def)

section \<open>The date in the URLs and on the display\<close>

lemma addsI: "(\<And>s. \<exists>evs. events (snd (m s)) = events s @ evs \<and> list_all Q evs) \<Longrightarrow> adds Q m"
  by (simp add: adds_def)

lemma addsD: "adds Q m \<Longrightarrow> \<exists>evs. events (snd (m s)) = events s @ evs \<and> list_all Q evs"
  by (simp add: adds_def)

lemma adds_mono: "adds Q m \<Longrightarrow> (\<And>ev. Q ev \<Longrightarrow> R ev) \<Longrightarrow> adds R m"
  unfolding adds_def list_all_iff by blast

lemma adds_ret: "adds Q (ret x)"
  by (simp add: adds_def ret_def)

lemma adds_throw: "adds Q (throw e)"
  by (simp add: adds_def throw_def)

lemma adds_emit: "Q ev \<Longrightarrow> adds Q (emit ev)"
  by (simp add: adds_def emit_def)

lemma adds_act: "Q ev \<Longrightarrow> adds Q (act ev f)"
  by (auto simp: adds_def act_def split: prod.splits option.splits)

lemma adds_query: "adds Q (query f)"
  by (simp add: adds_def query_def)

lemma adds_bind:
  assumes "adds Q m" and "\<And>x. adds Q (f x)"
  shows "adds Q (bind m f)"
proof (rule addsI)
  fix s
  from addsD [OF assms(1), of s] obtain e1 where e1: "events (snd (m s)) = events s @ e1" "list_all Q e1"
    by blast
  show "\<exists>evs. events (snd (bind m f s)) = events s @ evs \<and> list_all Q evs"
  proof (cases "m s")
    case (Pair r s1)
    show ?thesis
    proof (cases r)
      case (Inl e)
      with Pair e1 show ?thesis by (auto simp: bind_def)
    next
      case (Inr x)
      from addsD [OF assms(2), of x s1] obtain e2 where
        "events (snd (f x s1)) = events s1 @ e2" "list_all Q e2" by blast
      with Pair Inr e1 show ?thesis
        by (intro exI [of _ "e1 @ e2"]) (simp add: bind_def)
    qed
  qed
qed

lemma adds_block: "(\<And>m. m \<in> set ms \<Longrightarrow> adds Q m) \<Longrightarrow> adds Q (block ms)"
  by (induction ms) (auto intro!: adds_ret adds_bind)

lemma adds_try_except:
  assumes "adds Q m" and "\<And>e. adds Q (h e)"
  shows "adds Q (try_except m c h)"
proof (rule addsI)
  fix s
  from addsD [OF assms(1), of s] obtain e1 where e1: "events (snd (m s)) = events s @ e1" "list_all Q e1"
    by blast
  show "\<exists>evs. events (snd (try_except m c h s)) = events s @ evs \<and> list_all Q evs"
  proof (cases "m s")
    case (Pair r s1)
    show ?thesis
    proof (cases r)
      case (Inr x)
      with Pair e1 show ?thesis by (auto simp: try_except_def)
    next
      case (Inl e)
      from addsD [OF assms(2), of e s1] obtain e2 where
        "events (snd (h e s1)) = events s1 @ e2" "list_all Q e2" by blast
      with Pair Inl e1 show ?thesis
        by (cases "c e") (auto simp: try_except_def intro: exI [of _ "e1 @ e2"])
    qed
  qed
qed

lemma adds_try_finally:
  assumes "adds Q m" and "adds Q fin"
  shows "adds Q (try_finally m fin)"
proof (rule addsI)
  fix s
  from addsD [OF assms(1), of s] obtain e1 where e1: "events (snd (m s)) = events s @ e1" "list_all Q e1"
    by blast
  from addsD [OF assms(2), of "snd (m s)"] obtain e2 where
    e2: "events (snd (fin (snd (m s)))) = events (snd (m s)) @ e2" "list_all Q e2" by blast
  have "events (snd (try_finally m fin s)) = events (snd (fin (snd (m s))))"
    by (auto simp: try_finally_def split: prod.splits sum.splits)
  with e1 e2 show "\<exists>evs. events (snd (try_finally m fin s)) = events s @ evs \<and> list_all Q evs"
    by (intro exI [of _ "e1 @ e2"]) simp
qed

lemma adds_wait: "Q (WaitForTimeout n) \<Longrightarrow> adds Q (wait_ms env n)"
  by (simp add: wait_ms_def adds_act)

lemma adds_click_visible: "adds plain (click_visible env desc elems)"
  by (induction elems)
     (auto intro!: adds_ret adds_bind adds_query adds_block adds_act adds_emit adds_wait simp: plain_def)

lemma adds_handle_popups: "adds plain (handle_popups env)"
  unfolding handle_popups_def
  by (rule adds_block)
     (auto simp: handle_pattern_def intro!: adds_try_except adds_bind adds_query adds_click_visible adds_ret)

lemma adds_fill_city: "(\<And>e. plain (Print (m e))) \<Longrightarrow> adds plain (fill_city env sel city m)"
  unfolding fill_city_def Let_def
  by (auto intro!: adds_try_except adds_bind adds_query adds_block adds_act adds_emit adds_wait adds_ret
           simp: plain_def)

lemma adds_try_candidate: "adds plain (try_candidate env sel)"
  unfolding try_candidate_def Let_def
  by (auto intro!: adds_bind adds_query adds_act adds_ret simp: plain_def)

lemma adds_try_search_buttons: "adds plain (try_search_buttons env sels)"
proof (induction sels)
  case Nil
  show ?case by (simp add: adds_ret)
next
  case (Cons sel sels)
  show ?case
  proof (rule addsI)
    fix s
    obtain r s1 where c: "try_candidate env sel s = (r, s1)" by (cases "try_candidate env sel s")
    from addsD [OF adds_try_candidate, of env sel s] c obtain e1 where
      e1: "events s1 = events s @ e1" "list_all plain e1" by auto
    from addsD [OF Cons.IH, of s1] obtain e2 where
      e2: "events (snd (try_search_buttons env sels s1)) = events s1 @ e2" "list_all plain e2" by blast
    show "\<exists>evs. events (snd (try_search_buttons env (sel # sels) s)) = events s @ evs \<and> list_all plain evs"
    proof (cases "r = Inr True")
      case True
      with c e1 show ?thesis by auto
    next
      case False
      then have "try_search_buttons env (sel # sels) s = try_search_buttons env sels s1"
        using c by (auto split: sum.splits bool.splits)
      with e1 e2 show ?thesis by (intro exI [of _ "e1 @ e2"]) simp
    qed
  qed
qed

lemma adds_click_search_button: "adds plain (click_search_button env)"
  unfolding click_search_button_def
  by (auto intro!: adds_try_except adds_try_search_buttons adds_emit simp: plain_def)

lemma adds_extract_generic: "adds plain (extract_generic_flight_info P env)"
  by (rule addsI)
     (auto simp: extract_generic_flight_info_def bind_def emit_def ret_def plain_def
           split: sum.splits prod.splits option.splits)

lemma plain_using_selector: "plain (Print (M_using_selector sel n))"
  by (simp add: plain_def)

lemma adds_find_flight_elements: "adds plain (find_flight_elements env sels)"
proof (induction sels)
  case Nil
  show ?case by (simp add: adds_ret)
next
  case (Cons sel sels)
  show ?case
  proof (rule addsI)
    fix s
    from addsD [OF Cons.IH, of s] show
      "\<exists>evs. events (snd (find_flight_elements env (sel # sels) s)) = events s @ evs \<and> list_all plain evs"
      by (auto simp: bind_def emit_def ret_def plain_using_selector split: sum.splits)
  qed
qed

lemma adds_extract_flight_info: "adds plain (extract_flight_info P env)"
  unfolding extract_flight_info_def
  by (auto intro!: adds_bind adds_query adds_find_flight_elements adds_emit adds_extract_generic adds_ret
           simp: plain_def)

lemma plain_date_ok: "plain ev \<Longrightarrow> date_ok tm ev"
  by (auto simp: plain_def date_ok_def split: event.splits msg.splits)

lemmas adds_plain_date_ok = adds_mono [OF _ plain_date_ok]

lemma py_format_international:
  "py_format international_url x =
     ''https://flights.ctrip.com/international/search/oneway-sha-bjs?depdate='' @ x @ ''&cabin=y_s''"
  by (simp add: international_url_def)

lemma py_format_domestic:
  "py_format domestic_url x =
     ''https://flights.ctrip.com/online/list/oneway-hak-bjs?depdate='' @ x @ ''&cabin=y_s''"
  by (simp add: domestic_url_def)

lemma strftime_iso: "1000 \<le> year d \<Longrightarrow> strftime P ''%Y-%m-%d'' d = fmt_YYYY_MM_DD d"
  by (simp add: fmt_YYYY_MM_DD_def)

lemma digit_char_no_dash: "n < 10 \<Longrightarrow> digit_char n \<noteq> CHR ''-''"
proof -
  assume "n < 10"
  then have "n \<in> {0, 1, 2, 3, 4, 5, 6, 7, 8, 9}" by auto
  then show ?thesis by (auto simp: digit_char_def)
qed

lemma dec_no_dash: "CHR ''-'' \<notin> set (dec n)"
proof (induction n rule: dec.induct)
  case (1 n)
  show ?case
  proof (cases "n < 10")
    case True
    then show ?thesis using digit_char_no_dash [of n] by (simp add: dec.simps [of n])
  next
    case False
    with "1.IH" digit_char_no_dash [of "n mod 10"] show ?thesis by (simp add: dec.simps [of n])
  qed
qed

lemma zpad_no_dash: "filter (\<lambda>c. c \<noteq> CHR ''-'') (zpad w n) = zpad w n"
  using dec_no_dash [of n] by (auto simp: zpad_def filter_id_conv)

lemma replace_dash: "py_replace (CHR ''-'') [] (fmt_YYYY_MM_DD d) = fmt_YYYYMMDD d"
  by (simp add: py_replace_filter fmt_YYYY_MM_DD_def fmt_YYYYMMDD_def zpad_no_dash)

lemma adds_main_sequence: "adds (date_ok tm) (main_sequence P env (fmt_YYYY_MM_DD tm))"
  unfolding main_sequence_def Let_def replace_dash py_format_international py_format_domestic
  apply (rule adds_block)
  apply (auto intro!: adds_ret adds_emit adds_act adds_wait adds_try_except adds_bind adds_block
                adds_plain_date_ok [OF adds_handle_popups] adds_plain_date_ok [OF adds_fill_city]
                adds_plain_date_ok [OF adds_click_search_button]
                adds_plain_date_ok [OF adds_extract_flight_info]
           simp: date_ok_def plain_def)
  done

lemma adds_guarded_main: "adds (date_ok tm) (guarded_main P env (fmt_YYYY_MM_DD tm))"
  unfolding guarded_main_def error_handler_def cleanup_def Let_def
  by (auto intro!: adds_try_finally adds_try_except adds_main_sequence adds_block adds_emit adds_act
                   adds_bind adds_wait adds_ret simp: date_ok_def)

lemma adds_with_browser: "adds (date_ok tm) (with_browser P env (fmt_YYYY_MM_DD tm))"
  unfolding with_browser_def
  by (auto intro!: adds_bind adds_try_finally adds_block adds_emit adds_act adds_guarded_main adds_ret
           simp: date_ok_def)

lemma dec_length_1: "n < 10 \<Longrightarrow> length (dec n) = 1"
  by (simp add: dec.simps)

lemma dec_length_2: "n < 100 \<Longrightarrow> length (dec n) \<le> 2"
  by (subst dec.simps) (simp add: dec_length_1)

lemma dec_length_3: "n < 1000 \<Longrightarrow> length (dec n) \<le> 3"
  by (subst dec.simps) (simp add: dec_length_2 dec_length_1)

lemma dec_length_4: "n < 10000 \<Longrightarrow> length (dec n) \<le> 4"
  by (subst dec.simps) (simp add: dec_length_3 dec_length_1)

lemma zpad_length: "length (dec n) \<le> w \<Longrightarrow> length (zpad w n) = w"
  by (simp add: zpad_def)

lemma digit_char_digit: "n < 10 \<Longrightarrow> digit_char n \<in> set ''0123456789''"
proof -
  assume "n < 10"
  then have "n \<in> {0, 1, 2, 3, 4, 5, 6, 7, 8, 9}" by auto
  then show ?thesis by (auto simp: digit_char_def)
qed

lemma dec_digits: "set (dec n) \<subseteq> set ''0123456789''"
proof (induction n rule: dec.induct)
  case (1 n)
  show ?case
  proof (cases "n < 10")
    case True
    then show ?thesis using digit_char_digit [of n] by (simp add: dec.simps [of n])
  next
    case False
    with "1.IH" digit_char_digit [of "n mod 10"] show ?thesis by (simp add: dec.simps [of n])
  qed
qed

lemma zpad_digits: "set (zpad w n) \<subseteq> set ''0123456789''"
  using dec_digits [of n] by (auto simp: zpad_def)

lemma days_in_month_bounds: "28 \<le> days_in_month y m \<and> days_in_month y m \<le> 31"
  by (simp add: days_in_month_def)

lemma add_one_day_valid: "valid_date d \<Longrightarrow> add_one_day d = Inr d' \<Longrightarrow> valid_date d'"
  using days_in_month_bounds [of "year d" "Suc (month d)"] days_in_month_bounds [of "Suc (year d)" 1]
  by (auto simp: valid_date_def add_one_day_def split: if_splits)

lemma fmt_YYYYMMDD_form:
  assumes "valid_date d"
  shows "length (fmt_YYYYMMDD d) = 8 \<and> set (fmt_YYYYMMDD d) \<subseteq> set ''0123456789''"
proof -
  from assms days_in_month_bounds [of "year d" "month d"]
  have "year d < 10000" "month d < 100" "day d < 100" by (auto simp: valid_date_def)
  then have "length (zpad 4 (year d)) = 4" "length (zpad 2 (month d)) = 2" "length (zpad 2 (day d)) = 2"
    by (simp_all add: zpad_length dec_length_4 dec_length_2)
  then show ?thesis
    using zpad_digits [of 4 "year d"] zpad_digits [of 2 "month d"] zpad_digits [of 2 "day d"]
    by (simp add: fmt_YYYYMMDD_def)
qed

lemma add_one_day_overflow:
  "add_one_day d = Inl e \<Longrightarrow> e = OverflowError \<and> (valid_date d \<longrightarrow> year d = 9999 \<and> month d = 12 \<and> day d = 31)"
  by (auto simp: valid_date_def add_one_day_def days_in_month_def split: if_splits)

lemma fmt_example:
  "fmt_YYYY_MM_DD \<lparr> year = 2026, month = 11, day = 6 \<rparr> = ''2026-11-06''"
  "fmt_YYYYMMDD \<lparr> year = 2026, month = 11, day = 6 \<rparr> = ''20261106''"
  by (simp_all add: fmt_YYYY_MM_DD_def fmt_YYYYMMDD_def zpad_def dec_small dec_step digit_char_def)

text \<open>The whole run when the first navigation times out.\<close>

lemma nav_timeout_fields:
  "pw_start nav_timeout_env w = (None, w)" "pw_stop nav_timeout_env w = (None, w)"
  "launch nav_timeout_env w = (None, w)" "new_context nav_timeout_env w = (None, w)"
  "new_page nav_timeout_env w = (None, w)" "browser_close nav_timeout_env w = (None, w)"
  "screenshot nav_timeout_env f w = (None, w)" "wait_for_timeout nav_timeout_env n w = (None, w)"
  by (simp_all add: nav_timeout_env_def idle_env_def)

lemma nav_timeout_run:
  "search_flights ascii_rt nav_timeout_env today_example s0 =
     (Inr (), s0\<lparr>events :=
        [Print (M_date ''2026-11-06''), Start, Print M_launching, Launch, NewContext, NewPage,
         Print M_nav_ctrip,
         Goto ''https://flights.ctrip.com/international/search/oneway-sha-bjs?depdate=20261106&cabin=y_s'',
         Print (M_error TimeoutError), Traceback, Screenshot ''error_screenshot.png'',
         Print (M_screenshot_saved ''error_screenshot.png''), Print M_hold_60, WaitForTimeout 60000,
         CloseBrowser, Print M_done, Stop]\<rparr>)"
  by (simp add: search_flights_def tomorrow_example tomorrow_str_example with_browser_def
        guarded_main_def nav_timeout_main nav_timeout_fields try_except_def try_finally_def
        error_handler_def cleanup_def wait_ms_def bind_def emit_def act_def ret_def Let_def s0_def
        del: strftime.simps)

section \<open>The next day\<close>

lemma days_before_year_Suc:
  assumes "1 \<le> y"
  shows "days_before_year (Suc y) = days_before_year y + 365 + (if is_leap y then 1 else 0)"
proof -
  obtain k where k: "y = Suc k" using assms by (cases y) auto
  define A B C where "A = k div 4" and "B = k div 100" and "C = k div 400"
  define p q r where "p = (Suc k mod 4 = 0)" and "q = (Suc k mod 100 = 0)" and "r = (Suc k mod 400 = 0)"
  have a: "Suc k div 4 = A + (if p then 1 else 0)" by (simp add: div_Suc A_def p_def)
  have b: "Suc k div 100 = B + (if q then 1 else 0)" by (simp add: div_Suc B_def q_def)
  have c: "Suc k div 400 = C + (if r then 1 else 0)" by (simp add: div_Suc C_def r_def)
  have d: "B \<le> A" unfolding A_def B_def by (rule div_le_mono2) simp_all
  have e: "p" if "q"
  proof -
    have "Suc k mod 100 mod 4 = Suc k mod 4" by (rule mod_mod_cancel) simp
    with that show ?thesis by (simp add: p_def q_def)
  qed
  have f: "q" if "r"
  proof -
    have "Suc k mod 400 mod 100 = Suc k mod 100" by (rule mod_mod_cancel) simp
    with that show ?thesis by (simp add: q_def r_def)
  qed
  have leap: "is_leap (Suc k) = (p \<and> (\<not> q \<or> r))" by (simp add: is_leap_def p_def q_def r_def)
  have l: "days_before_year (Suc k) = k * 365 + A - B + C"
    by (simp add: days_before_year_def A_def B_def C_def)
  have "days_before_year (Suc (Suc k)) =
          Suc k * 365 + (A + (if p then 1 else 0)) - (B + (if q then 1 else 0)) + (C + (if r then 1 else 0))"
    by (simp only: days_before_year_def Let_def diff_Suc_1 a b c)
  also have "\<dots> = k * 365 + A - B + C + 365 + (if p \<and> (\<not> q \<or> r) then 1 else 0)"
    using d e f by (cases p; cases q; cases r) simp_all
  finally show ?thesis by (simp only: k l leap)
qed

lemma days_before_month_Suc:
  assumes "1 \<le> m" and "m < 12"
  shows "days_before_month y (Suc m) = days_before_month y m + days_in_month y m"
proof -
  from assms have "m = 1 \<or> m = 2 \<or> m = 3 \<or> m = 4 \<or> m = 5 \<or> m = 6 \<or> m = 7 \<or> m = 8 \<or> m = 9 \<or> m = 10 \<or> m = 11"
    by arith
  then show ?thesis
    by (elim disjE) (simp_all add: days_before_month_def days_in_month_def)
qed

lemma days_before_month_12:
  "days_before_month y 12 + 31 = 365 + (if is_leap y then 1 else 0)"
  by (simp add: days_before_month_def)

lemma days_before_month_1: "days_before_month y (Suc 0) = 0"
  by (simp add: days_before_month_def)

lemma add_one_day_toordinal:
  assumes "valid_date today" and "add_one_day today = Inr tomorrow"
  shows "toordinal tomorrow = toordinal today + 1"
proof -
  let ?y = "year today" and ?m = "month today" and ?d = "day today"
  from assms(1) have v: "1 \<le> ?y" "1 \<le> ?m" "?m \<le> 12" "?d \<le> days_in_month ?y ?m"
    by (simp_all add: valid_date_def)
  consider (same) "?d < days_in_month ?y ?m"
    | (next_month) "?d = days_in_month ?y ?m" "?m < 12"
    | (next_year) "?d = days_in_month ?y ?m" "?m = 12" "?y < 9999"
    | (none) "?d = days_in_month ?y ?m" "?m = 12" "\<not> ?y < 9999"
    using v by linarith
  then show ?thesis
  proof cases
    case same
    with assms(2) show ?thesis by (auto simp: add_one_day_def toordinal_def)
  next
    case next_month
    with assms(2) have "tomorrow = today\<lparr>month := ?m + 1, day := 1\<rparr>"
      by (simp add: add_one_day_def)
    then show ?thesis
      using days_before_month_Suc [OF v(2) next_month(2), of ?y] next_month(1)
      by (simp add: toordinal_def)
  next
    case next_year
    with assms(2) have "tomorrow = \<lparr>year = ?y + 1, month = 1, day = 1\<rparr>"
      by (simp add: add_one_day_def days_in_month_def)
    moreover have "?d = 31" using next_year by (simp add: days_in_month_def)
    ultimately show ?thesis
      using days_before_year_Suc [OF v(1)] days_before_month_12 [of ?y] next_year(2)
      by (simp add: toordinal_def days_before_month_1)
  next
    case none
    with assms(2) show ?thesis by (simp add: add_one_day_def days_in_month_def)
  qed
qed

lemma days_before_year_mono:
  assumes "1 \<le> y1" and "y1 < y2"
  shows "days_before_year (Suc y1) \<le> days_before_year y2"
  using assms(2,1)
proof (induction y2)
  case 0
  then show ?case by simp
next
  case (Suc y2)
  show ?case
  proof (cases "y1 = y2")
    case True
    then show ?thesis by simp
  next
    case False
    with Suc.prems have lt: "y1 < y2" by simp
    from Suc.IH [OF lt Suc.prems(2)] have "days_before_year (Suc y1) \<le> days_before_year y2" .
    moreover from lt Suc.prems(2) have "1 \<le> y2" by simp
    from days_before_year_Suc [OF this] have "days_before_year y2 \<le> days_before_year (Suc y2)" by simp
    ultimately show ?thesis by simp
  qed
qed

lemma days_before_month_mono:
  assumes "1 \<le> m1" and "m1 < m2" and "m2 \<le> 12"
  shows "days_before_month y m1 + days_in_month y m1 \<le> days_before_month y m2"
  using assms(2,1,3)
proof (induction m2)
  case 0
  then show ?case by simp
next
  case (Suc m2)
  show ?case
  proof (cases "m1 = m2")
    case True
    with Suc.prems days_before_month_Suc [of m2 y] show ?thesis by simp
  next
    case False
    with Suc.prems have lt: "m1 < m2" by simp
    from Suc.prems have le: "m2 \<le> 12" "m2 < 12" by simp_all
    from Suc.IH [OF lt Suc.prems(2) le(1)]
    have "days_before_month y m1 + days_in_month y m1 \<le> days_before_month y m2" .
    moreover from lt Suc.prems(2) have "1 \<le> m2" by simp
    from days_before_month_Suc [OF this le(2), of y]
    have "days_before_month y m2 \<le> days_before_month y (Suc m2)" by simp
    ultimately show ?thesis by simp
  qed
qed

lemma days_before_month_year:
  assumes "1 \<le> m" and "m \<le> 12"
  shows "days_before_month y m + days_in_month y m \<le> 365 + (if is_leap y then 1 else 0)"
proof (cases "m = 12")
  case True
  then show ?thesis using days_before_month_12 [of y] by (simp add: days_in_month_def)
next
  case False
  with assms have "m < 12" by simp
  from days_before_month_mono [OF assms(1) this, of y] days_before_month_12 [of y]
  show ?thesis by simp
qed

lemma toordinal_bounds:
  assumes "valid_date d"
  shows "days_before_year (year d) < toordinal d" and "toordinal d \<le> days_before_year (Suc (year d))"
proof -
  from assms have v: "1 \<le> year d" "1 \<le> month d" "month d \<le> 12" "1 \<le> day d"
    "day d \<le> days_in_month (year d) (month d)"
    by (simp_all add: valid_date_def)
  from v(4) show "days_before_year (year d) < toordinal d" by (simp add: toordinal_def)
  from days_before_month_year [OF v(2,3), of "year d"] v(5) days_before_year_Suc [OF v(1)]
  show "toordinal d \<le> days_before_year (Suc (year d))" by (simp add: toordinal_def)
qed

lemma toordinal_year:
  assumes "valid_date d1" and "valid_date d2" and "toordinal d1 = toordinal d2"
  shows "year d1 = year d2"
proof (rule ccontr)
  assume ne: "year d1 \<noteq> year d2"
  have *: False if v1: "valid_date a" and v2: "valid_date b" and eq: "toordinal a = toordinal b"
    and lt: "year a < year b" for a b
  proof -
    from v1 have "1 \<le> year a" by (simp add: valid_date_def)
    from days_before_year_mono [OF this lt] toordinal_bounds(2) [OF v1] toordinal_bounds(1) [OF v2] eq
    show False by simp
  qed
  from ne have "year d1 < year d2 \<or> year d2 < year d1" by arith
  then show False using * [OF assms(1,2,3)] * [OF assms(2,1) assms(3) [symmetric]] by blast
qed

lemma toordinal_inj:
  assumes "valid_date d1" and "valid_date d2" and "toordinal d1 = toordinal d2"
  shows "d1 = d2"
proof -
  have y: "year d1 = year d2" using assms by (rule toordinal_year)
  have *: False if v1: "valid_date a" and v2: "valid_date b" and eq: "toordinal a = toordinal b"
    and ye: "year a = year b" and lt: "month a < month b" for a b
  proof -
    from v1 have a: "1 \<le> month a" "day a \<le> days_in_month (year a) (month a)" by (simp_all add: valid_date_def)
    from v2 have b: "month b \<le> 12" "1 \<le> day b" by (simp_all add: valid_date_def)
    from days_before_month_mono [OF a(1) lt b(1), of "year a"] a(2) b(2) eq ye
    show False by (simp add: toordinal_def)
  qed
  have m: "month d1 = month d2"
  proof (rule ccontr)
    assume "month d1 \<noteq> month d2"
    then have "month d1 < month d2 \<or> month d2 < month d1" by arith
    then show False
      using * [OF assms(1,2,3) y] * [OF assms(2,1) assms(3) [symmetric] y [symmetric]] by blast
  qed
  from assms(3) y m have "day d1 = day d2" by (simp add: toordinal_def)
  with y m show ?thesis by simp
qed

lemma toordinal_last:
  assumes "year d = 9999" and "month d = 12" and "day d = 31"
  shows "toordinal d = 3652059"
  using assms
  by (simp add: toordinal_def days_before_year_def days_before_month_def is_leap_def)

lemma toordinal_example:
  "toordinal today_example = 739925" "toordinal \<lparr> year = 2026, month = 11, day = 6 \<rparr> = 739926"
  by (simp_all add: toordinal_def days_before_year_def days_before_month_def is_leap_def today_example_def)

text \<open>
  C7. When the run starts on the date \<open>today\<close>, the date \<open>tomorrow\<close> that it computes is
  \<open>today\<close> plus one day: for a date \<open>today\<close> of the calendar, \<open>tomorrow\<close> is a date of the
  calendar, its day number is the day number of \<open>today\<close> plus one, and it is the only date of
  the calendar with that day number. When the year of \<open>tomorrow\<close> has four digits (from the
  year 1000 on \<open>%Y\<close> does not depend on the platform; the clock of a machine that runs the
  script shows a later year), the string that is displayed is \<open>tomorrow\<close> as \<open>YYYY-MM-DD\<close>,
  the string that is put into the URLs is \<open>tomorrow\<close> as \<open>YYYYMMDD\<close> (eight decimal digits
  when \<open>today\<close> is a date of the calendar), the first thing the run does is to print the
  former, and after that every navigation goes to one of the two search URLs with the latter
  as its \<open>depdate\<close> and the report shows the former. The only date of the calendar with no
  next day in \<open>datetime\<close> is 9999-12-31, the day 3652059: there the run raises OverflowError
  before it does anything.
\<close>

theorem tomorrow_in_urls_and_display:
  "(add_one_day today = Inr tomorrow \<longrightarrow>
      (valid_date today \<longrightarrow>
         valid_date tomorrow \<and> toordinal tomorrow = toordinal today + 1 \<and>
         (\<forall>d. valid_date d \<and> toordinal d = toordinal today + 1 \<longrightarrow> d = tomorrow)) \<and>
      (1000 \<le> year tomorrow \<longrightarrow>
         strftime P ''%Y-%m-%d'' tomorrow = fmt_YYYY_MM_DD tomorrow \<and>
         py_replace (CHR ''-'') [] (strftime P ''%Y-%m-%d'' tomorrow) = fmt_YYYYMMDD tomorrow \<and>
         (valid_date today \<longrightarrow>
            length (fmt_YYYYMMDD tomorrow) = 8 \<and> set (fmt_YYYYMMDD tomorrow) \<subseteq> set ''0123456789'') \<and>
         (\<exists>rest. events (snd (search_flights P env today s)) =
                    events s @ Print (M_date (fmt_YYYY_MM_DD tomorrow)) # rest \<and>
                  list_all (date_ok tomorrow) rest))) \<and>
   (add_one_day today = Inl e \<longrightarrow>
      search_flights P env today s = (Inl e, s) \<and> e = OverflowError \<and>
      (valid_date today \<longrightarrow>
         year today = 9999 \<and> month today = 12 \<and> day today = 31 \<and> toordinal today = 3652059))"
proof -
  have next_day: "valid_date tomorrow \<and> toordinal tomorrow = toordinal today + 1 \<and>
      (\<forall>d. valid_date d \<and> toordinal d = toordinal today + 1 \<longrightarrow> d = tomorrow)"
    if t: "add_one_day today = Inr tomorrow" and v: "valid_date today"
  proof (intro conjI allI impI)
    from v t show v': "valid_date tomorrow" by (rule add_one_day_valid)
    from v t show o: "toordinal tomorrow = toordinal today + 1" by (rule add_one_day_toordinal)
    fix d
    assume "valid_date d \<and> toordinal d = toordinal today + 1"
    with o have "valid_date d" and "toordinal d = toordinal tomorrow" by simp_all
    then show "d = tomorrow" using v' by (intro toordinal_inj)
  qed
  have digits: "length (fmt_YYYYMMDD tomorrow) = 8 \<and> set (fmt_YYYYMMDD tomorrow) \<subseteq> set ''0123456789''"
    if t: "add_one_day today = Inr tomorrow" and v: "valid_date today"
    using add_one_day_valid [OF v t] by (rule fmt_YYYYMMDD_form)
  have shown: "strftime P ''%Y-%m-%d'' tomorrow = fmt_YYYY_MM_DD tomorrow \<and>
      py_replace (CHR ''-'') [] (strftime P ''%Y-%m-%d'' tomorrow) = fmt_YYYYMMDD tomorrow \<and>
      (\<exists>rest. events (snd (search_flights P env today s)) =
                 events s @ Print (M_date (fmt_YYYY_MM_DD tomorrow)) # rest \<and>
               list_all (date_ok tomorrow) rest)"
    if t: "add_one_day today = Inr tomorrow" and y: "1000 \<le> year tomorrow"
  proof (intro conjI)
    note iso = strftime_iso [OF y, of P]
    show "strftime P ''%Y-%m-%d'' tomorrow = fmt_YYYY_MM_DD tomorrow" by (rule iso)
    show "py_replace (CHR ''-'') [] (strftime P ''%Y-%m-%d'' tomorrow) = fmt_YYYYMMDD tomorrow"
      by (simp only: iso replace_dash)
    let ?s1 = "s\<lparr>events := events s @ [Print (M_date (fmt_YYYY_MM_DD tomorrow))]\<rparr>"
    have run: "search_flights P env today s = with_browser P env (fmt_YYYY_MM_DD tomorrow) ?s1"
      using t by (simp add: search_flights_def iso bind_def emit_def Let_def del: strftime.simps)
    from addsD [OF adds_with_browser [of tomorrow P env], of ?s1] obtain rest where
      "events (snd (with_browser P env (fmt_YYYY_MM_DD tomorrow) ?s1)) = events ?s1 @ rest"
      "list_all (date_ok tomorrow) rest" by blast
    with run show "\<exists>rest. events (snd (search_flights P env today s)) =
                   events s @ Print (M_date (fmt_YYYY_MM_DD tomorrow)) # rest \<and>
                 list_all (date_ok tomorrow) rest"
      by simp
  qed
  have last_day: "search_flights P env today s = (Inl e, s) \<and> e = OverflowError \<and>
      (valid_date today \<longrightarrow>
         year today = 9999 \<and> month today = 12 \<and> day today = 31 \<and> toordinal today = 3652059)"
    if l: "add_one_day today = Inl e"
  proof (intro conjI impI)
    from l show "search_flights P env today s = (Inl e, s)"
      by (simp add: search_flights_def throw_def)
    from add_one_day_overflow [OF l] show "e = OverflowError" by blast
    assume "valid_date today"
    with add_one_day_overflow [OF l]
    show ymd: "year today = 9999" "month today = 12" "day today = 31" by blast+
    then show "toordinal today = 3652059" by (rule toordinal_last)
  qed
  from next_day digits shown last_day show ?thesis by blast
qed

theorem tomorrow_in_urls_and_display_witness:
  "valid_date today_example \<and>
   add_one_day today_example = Inr \<lparr> year = 2026, month = 11, day = 6 \<rparr> \<and>
   valid_date \<lparr> year = 2026, month = 11, day = 6 \<rparr> \<and>
   toordinal today_example = 739925 \<and>
   toordinal \<lparr> year = 2026, month = 11, day = 6 \<rparr> = 739926 \<and>
   (1000::nat) \<le> year \<lparr> year = 2026, month = 11, day = 6 \<rparr> \<and>
   strftime ascii_rt ''%Y-%m-%d'' \<lparr> year = 2026, month = 11, day = 6 \<rparr> = ''2026-11-06'' \<and>
   py_replace (CHR ''-'') [] (strftime ascii_rt ''%Y-%m-%d'' \<lparr> year = 2026, month = 11, day = 6 \<rparr>) = ''20261106'' \<and>
   length ''20261106'' = 8 \<and>
   (\<exists>rest. events (snd (search_flights ascii_rt nav_timeout_env today_example s0)) =
             Print (M_date ''2026-11-06'') # rest \<and>
           list_all (date_ok \<lparr> year = 2026, month = 11, day = 6 \<rparr>) rest \<and>
           Goto ''https://flights.ctrip.com/international/search/oneway-sha-bjs?depdate=20261106&cabin=y_s''
             \<in> set rest) \<and>
   valid_date \<lparr> year = 9999, month = 12, day = 31 \<rparr> \<and>
   add_one_day \<lparr> year = 9999, month = 12, day = 31 \<rparr> = Inl OverflowError \<and>
   toordinal \<lparr> year = 9999, month = 12, day = 31 \<rparr> = 3652059 \<and>
   search_flights ascii_rt nav_timeout_env \<lparr> year = 9999, month = 12, day = 31 \<rparr> s0 = (Inl OverflowError, s0)"
proof -
  let ?tm = "\<lparr> year = 2026, month = 11, day = 6 \<rparr>"
  let ?last = "\<lparr> year = 9999, month = 12, day = 31 \<rparr>"
  have v: "valid_date today_example"
    by (simp add: valid_date_def today_example_def days_in_month_def)
  have y: "(1000::nat) \<le> year ?tm" by simp
  note inst = tomorrow_in_urls_and_display [of today_example ?tm ascii_rt nav_timeout_env s0]
  from inst tomorrow_example v
  have nd: "valid_date ?tm \<and> toordinal ?tm = toordinal today_example + 1"
    by blast
  then have v': "valid_date ?tm" and o: "toordinal ?tm = 739926"
    by (simp_all add: toordinal_example(1))
  from inst tomorrow_example v y
  have "strftime ascii_rt ''%Y-%m-%d'' ?tm = fmt_YYYY_MM_DD ?tm \<and>
      py_replace (CHR ''-'') [] (strftime ascii_rt ''%Y-%m-%d'' ?tm) = fmt_YYYYMMDD ?tm \<and>
      length (fmt_YYYYMMDD ?tm) = 8 \<and>
      (\<exists>rest. events (snd (search_flights ascii_rt nav_timeout_env today_example s0)) =
                 events s0 @ Print (M_date (fmt_YYYY_MM_DD ?tm)) # rest \<and>
               list_all (date_ok ?tm) rest)"
    by blast
  then have "strftime ascii_rt ''%Y-%m-%d'' ?tm = ''2026-11-06'' \<and>
      py_replace (CHR ''-'') [] (strftime ascii_rt ''%Y-%m-%d'' ?tm) = ''20261106'' \<and>
      length ''20261106'' = 8 \<and>
      (\<exists>rest. events (snd (search_flights ascii_rt nav_timeout_env today_example s0)) =
                 events s0 @ Print (M_date ''2026-11-06'') # rest \<and>
               list_all (date_ok ?tm) rest)"
    unfolding fmt_example .
  then have a: "strftime ascii_rt ''%Y-%m-%d'' ?tm = ''2026-11-06''"
    and b: "py_replace (CHR ''-'') [] (strftime ascii_rt ''%Y-%m-%d'' ?tm) = ''20261106''"
    and n: "length ''20261106'' = 8"
    and c: "\<exists>rest. events (snd (search_flights ascii_rt nav_timeout_env today_example s0)) =
                 events s0 @ Print (M_date ''2026-11-06'') # rest \<and> list_all (date_ok ?tm) rest"
    by blast+
  from c obtain rest where rest: "events (snd (search_flights ascii_rt nav_timeout_env today_example s0)) =
                 events s0 @ Print (M_date ''2026-11-06'') # rest" "list_all (date_ok ?tm) rest"
    by blast
  from rest(1) have "Goto ''https://flights.ctrip.com/international/search/oneway-sha-bjs?depdate=20261106&cabin=y_s''
             \<in> set rest"
    unfolding nav_timeout_run by (auto simp: s0_def)
  with rest have d: "\<exists>rest. events (snd (search_flights ascii_rt nav_timeout_env today_example s0)) =
             Print (M_date ''2026-11-06'') # rest \<and> list_all (date_ok ?tm) rest \<and>
           Goto ''https://flights.ctrip.com/international/search/oneway-sha-bjs?depdate=20261106&cabin=y_s''
             \<in> set rest"
    by (auto simp: s0_def)
  have vl: "valid_date ?last"
    by (simp add: valid_date_def days_in_month_def)
  have l: "add_one_day ?last = Inl OverflowError"
    by (simp add: add_one_day_def days_in_month_def)
  from tomorrow_in_urls_and_display [of ?last ?tm ascii_rt nav_timeout_env s0 OverflowError] l vl
  have f: "search_flights ascii_rt nav_timeout_env ?last s0 = (Inl OverflowError, s0)"
    and g: "toordinal ?last = 3652059" by blast+
  from v v' o y a b n d vl l f g tomorrow_example toordinal_example(1) show ?thesis by blast
qed

end
